theory Spec2Isabelle
  imports Main
begin

section \<open>JavaScript strings and arrays\<close>

text \<open>
  A JavaScript string is modelled as a \<^typ>\<open>string\<close>: the list of its code units, here the
  code units below 256. Array and string \<open>slice\<close> take relative indices; a negative index
  counts from the end and everything is clamped to the length.
\<close>

definition newline :: char where
  "newline = CHR 0x0A"

definition ESC :: char where
  "ESC = CHR 0x1B"

text \<open>\<open>s.split('\n')\<close>: the fragments between newlines; never empty (\<open>''.split('\n')\<close> is \<open>['']\<close>).\<close>

fun split_nl :: "string \<Rightarrow> string list" where
  "split_nl [] = [[]]"
| "split_nl (c # cs) =
     (if c = newline then [] # split_nl cs
      else (c # hd (split_nl cs)) # tl (split_nl cs))"

text \<open>\<open>xs.join('\n')\<close>.\<close>

fun join_nl :: "string list \<Rightarrow> string" where
  "join_nl [] = []"
| "join_nl [x] = x"
| "join_nl (x # y # ys) = x @ newline # join_nl (y # ys)"

text \<open>The relative index of \<open>Array.prototype.slice\<close> and \<open>String.prototype.slice\<close>.\<close>

definition rel_index :: "int \<Rightarrow> nat \<Rightarrow> nat" where
  "rel_index i len = (if i < 0 then nat (max (int len + i) 0) else min (nat i) len)"

definition js_slice :: "int \<Rightarrow> int option \<Rightarrow> 'a list \<Rightarrow> 'a list" where
  "js_slice start end xs =
     (let len = length xs;
          k = rel_index start len;
          e = (case end of None \<Rightarrow> len | Some j \<Rightarrow> rel_index j len)
      in take (e - k) (drop k xs))"

text \<open>The last \<open>n\<close> elements of a list (all of it when it is shorter).\<close>

definition takeLast :: "nat \<Rightarrow> 'a list \<Rightarrow> 'a list" where
  "takeLast n xs = drop (length xs - n) xs"

section \<open>History (history.ts)\<close>

record History =
  lines :: "string list"
  currentLine :: string
  limit :: nat
  trackLastOutputAt :: bool
  lastOutputAt :: "nat option"

text \<open>\<open>new History(limit = 10000, trackLastOutputAt = true)\<close>.\<close>

definition History_new :: "nat option \<Rightarrow> bool option \<Rightarrow> History" where
  "History_new lim track =
     \<lparr> lines = [], currentLine = [],
       limit = (case lim of None \<Rightarrow> 10000 | Some n \<Rightarrow> n),
       trackLastOutputAt = (case track of None \<Rightarrow> True | Some b \<Rightarrow> b),
       lastOutputAt = None \<rparr>"

text \<open>One turn of the loop in \<open>append\<close>: push the line, then shift when over the limit.\<close>

definition push_line :: "nat \<Rightarrow> string list \<Rightarrow> string \<Rightarrow> string list" where
  "push_line lim ls l = (let ls' = ls @ [l] in if length ls' > lim then tl ls' else ls')"

text \<open>\<open>append(data)\<close>; \<open>now\<close> is the clock value that \<open>new Date()\<close> reads.\<close>

definition History_append :: "nat \<Rightarrow> string \<Rightarrow> History \<Rightarrow> History" where
  "History_append now data h =
     (let parts = split_nl (currentLine h @ data)
      in h\<lparr> lastOutputAt := (if trackLastOutputAt h then Some now else lastOutputAt h),
             currentLine := last parts,
             lines := foldl (push_line (limit h)) (lines h) (butlast parts) \<rparr>)"

text \<open>The array \<open>all\<close> built by \<open>getAll\<close> and \<open>tail\<close>: the lines, and the partial line when it is
  not the empty string.\<close>

definition all_lines :: "History \<Rightarrow> string list" where
  "all_lines h = (if currentLine h \<noteq> [] then lines h @ [currentLine h] else lines h)"

definition History_getAll :: "History \<Rightarrow> string" where
  "History_getAll h = join_nl (all_lines h)"

definition History_tail :: "int option \<Rightarrow> History \<Rightarrow> string" where
  "History_tail n h =
     join_nl (js_slice (- (case n of None \<Rightarrow> 10 | Some k \<Rightarrow> k)) None (all_lines h))"

definition History_head :: "int option \<Rightarrow> History \<Rightarrow> string" where
  "History_head n h =
     join_nl (js_slice 0 (Some (case n of None \<Rightarrow> 10 | Some k \<Rightarrow> k)) (lines h))"

definition History_slice :: "int \<Rightarrow> int option \<Rightarrow> History \<Rightarrow> string" where
  "History_slice start end h = join_nl (js_slice start end (lines h))"

definition History_lineCount :: "History \<Rightarrow> nat" where
  "History_lineCount h = length (lines h) + (if currentLine h \<noteq> [] then 1 else 0)"

definition History_clear :: "History \<Rightarrow> History" where
  "History_clear h = h\<lparr> lines := [], currentLine := [] \<rparr>"

text \<open>Feeding a history a sequence of chunks, each with the time it arrives.\<close>

definition append_all :: "(nat \<times> string) list \<Rightarrow> History \<Rightarrow> History" where
  "append_all chunks h = foldl (\<lambda>h' (t, d). History_append t d h') h chunks"

section \<open>Key codec (keys.ts)\<close>

text \<open>The symbols of \<open>Key\<close>; the last four are declared for type hints only.\<close>

datatype SpecialKey =
    Key_Enter | Key_Tab | Key_Escape | Key_Backspace | Key_Delete | Key_Space
  | Key_Up | Key_Down | Key_Left | Key_Right
  | Key_Home | Key_End | Key_PageUp | Key_PageDown | Key_Insert
  | Key_F1 | Key_F2 | Key_F3 | Key_F4 | Key_F5 | Key_F6
  | Key_F7 | Key_F8 | Key_F9 | Key_F10 | Key_F11 | Key_F12
  | Key_Ctrl | Key_Alt | Key_Shift | Key_Meta

text \<open>\<open>key: SpecialKey | string\<close> of a modified key.\<close>

datatype KeyBase = KSym SpecialKey | KStr string

text \<open>An absent modifier flag is falsy, so each optional flag is a \<^typ>\<open>bool\<close>.\<close>

record ModifiedKey =
  key :: KeyBase
  ctrl :: bool
  alt :: bool
  shift :: bool
  meta :: bool

text \<open>\<open>KeyInput = string | SpecialKey | ModifiedKey\<close>.\<close>

datatype KeyInput = Text string | Special SpecialKey | Modified ModifiedKey

datatype error =
    UnknownKey SpecialKey
  | CannotEncodeKey ModifiedKey
  | SessionNotAlive string
  | SessionNotFound string
  | PtyResizeFailed nat nat

fun KEY_MAP :: "SpecialKey \<Rightarrow> string option" where
  "KEY_MAP Key_Enter = Some [CHR 0x0D]"
| "KEY_MAP Key_Tab = Some [CHR 0x09]"
| "KEY_MAP Key_Escape = Some [ESC]"
| "KEY_MAP Key_Backspace = Some [CHR 0x7F]"
| "KEY_MAP Key_Delete = Some (ESC # ''[3~'')"
| "KEY_MAP Key_Space = Some '' ''"
| "KEY_MAP Key_Up = Some (ESC # ''[A'')"
| "KEY_MAP Key_Down = Some (ESC # ''[B'')"
| "KEY_MAP Key_Right = Some (ESC # ''[C'')"
| "KEY_MAP Key_Left = Some (ESC # ''[D'')"
| "KEY_MAP Key_Home = Some (ESC # ''[H'')"
| "KEY_MAP Key_End = Some (ESC # ''[F'')"
| "KEY_MAP Key_PageUp = Some (ESC # ''[5~'')"
| "KEY_MAP Key_PageDown = Some (ESC # ''[6~'')"
| "KEY_MAP Key_Insert = Some (ESC # ''[2~'')"
| "KEY_MAP Key_F1 = Some (ESC # ''OP'')"
| "KEY_MAP Key_F2 = Some (ESC # ''OQ'')"
| "KEY_MAP Key_F3 = Some (ESC # ''OR'')"
| "KEY_MAP Key_F4 = Some (ESC # ''OS'')"
| "KEY_MAP Key_F5 = Some (ESC # ''[15~'')"
| "KEY_MAP Key_F6 = Some (ESC # ''[17~'')"
| "KEY_MAP Key_F7 = Some (ESC # ''[18~'')"
| "KEY_MAP Key_F8 = Some (ESC # ''[19~'')"
| "KEY_MAP Key_F9 = Some (ESC # ''[20~'')"
| "KEY_MAP Key_F10 = Some (ESC # ''[21~'')"
| "KEY_MAP Key_F11 = Some (ESC # ''[23~'')"
| "KEY_MAP Key_F12 = Some (ESC # ''[24~'')"
| "KEY_MAP _ = None"

fun ARROW_BASE :: "SpecialKey \<Rightarrow> string option" where
  "ARROW_BASE Key_Up = Some ''A''"
| "ARROW_BASE Key_Down = Some ''B''"
| "ARROW_BASE Key_Right = Some ''C''"
| "ARROW_BASE Key_Left = Some ''D''"
| "ARROW_BASE Key_Home = Some ''H''"
| "ARROW_BASE Key_End = Some ''F''"
| "ARROW_BASE _ = None"

text \<open>\<open>Symbol.prototype.description\<close> of each key symbol.\<close>

fun description :: "SpecialKey \<Rightarrow> string" where
  "description Key_Enter = ''Enter''"
| "description Key_Tab = ''Tab''"
| "description Key_Escape = ''Escape''"
| "description Key_Backspace = ''Backspace''"
| "description Key_Delete = ''Delete''"
| "description Key_Space = ''Space''"
| "description Key_Up = ''Up''"
| "description Key_Down = ''Down''"
| "description Key_Left = ''Left''"
| "description Key_Right = ''Right''"
| "description Key_Home = ''Home''"
| "description Key_End = ''End''"
| "description Key_PageUp = ''PageUp''"
| "description Key_PageDown = ''PageDown''"
| "description Key_Insert = ''Insert''"
| "description Key_F1 = ''F1''"
| "description Key_F2 = ''F2''"
| "description Key_F3 = ''F3''"
| "description Key_F4 = ''F4''"
| "description Key_F5 = ''F5''"
| "description Key_F6 = ''F6''"
| "description Key_F7 = ''F7''"
| "description Key_F8 = ''F8''"
| "description Key_F9 = ''F9''"
| "description Key_F10 = ''F10''"
| "description Key_F11 = ''F11''"
| "description Key_F12 = ''F12''"
| "description Key_Ctrl = ''Ctrl''"
| "description Key_Alt = ''Alt''"
| "description Key_Shift = ''Shift''"
| "description Key_Meta = ''Meta''"

text \<open>The decimal rendering of a number inside a template string.\<close>

fun decimal :: "nat \<Rightarrow> string" where
  "decimal n =
     (if n < 10 then [''0123456789'' ! n]
      else decimal (n div 10) @ [''0123456789'' ! (n mod 10)])"

declare decimal.simps [simp del]

text \<open>\<open>toLowerCase\<close> of one code unit below 256: the ASCII capitals and the Latin-1 capitals
  (all of \<open>0xC0..0xDE\<close> but the multiplication sign) move up by 32.\<close>

definition toLowerCase :: "char \<Rightarrow> nat" where
  "toLowerCase c =
     (let n = of_char c :: nat
      in if (65 \<le> n \<and> n \<le> 90) \<or> (192 \<le> n \<and> n \<le> 222 \<and> n \<noteq> 215) then n + 32 else n)"

text \<open>The modifier number of the xterm encoding.\<close>

definition modifier :: "ModifiedKey \<Rightarrow> nat" where
  "modifier m =
     1 + (if shift m then 1 else 0) + (if alt m then 2 else 0)
       + (if ctrl m then 4 else 0) + (if meta m then 8 else 0)"

text \<open>First branch of the modified case: one character with Ctrl and neither Alt nor Meta,
  when its lower case is a letter \<open>a\<close> to \<open>z\<close>.\<close>

definition ctrlLetter :: "ModifiedKey \<Rightarrow> string option" where
  "ctrlLetter m =
     (case key m of
        KStr [c] \<Rightarrow>
          (if ctrl m \<and> \<not> alt m \<and> \<not> meta m
           then (let code = toLowerCase c
                 in if 97 \<le> code \<and> code \<le> 122 then Some [char_of (code - 96)] else None)
           else None)
      | _ \<Rightarrow> None)"

text \<open>Second branch: a special key with modifiers (Tab, the arrows with Home and End,
  then the base encoding with the Alt prefix).\<close>

definition specialWithModifiers :: "ModifiedKey \<Rightarrow> string option" where
  "specialWithModifiers m =
     (case key m of
        KStr _ \<Rightarrow> None
      | KSym k \<Rightarrow>
          (let anyMod = (ctrl m \<or> alt m \<or> shift m \<or> meta m)
           in if k = Key_Tab \<and> anyMod
              then (if shift m \<and> \<not> ctrl m \<and> \<not> alt m \<and> \<not> meta m
                    then Some (ESC # ''[Z'')
                    else Some (ESC # ''[1;'' @ decimal (modifier m) @ ''Z''))
              else (case (if anyMod then ARROW_BASE k else None) of
                      Some arrowCode \<Rightarrow> Some (ESC # ''[1;'' @ decimal (modifier m) @ arrowCode)
                    | None \<Rightarrow>
                        (case KEY_MAP k of
                           Some encoded \<Rightarrow>
                             (if alt m \<and> \<not> ctrl m \<and> \<not> meta m
                              then Some (ESC # encoded) else Some encoded)
                         | None \<Rightarrow> None))))"

fun encodeKey :: "KeyInput \<Rightarrow> error + string" where
  "encodeKey (Text s) = Inr s"
| "encodeKey (Special k) =
     (case KEY_MAP k of None \<Rightarrow> Inl (UnknownKey k) | Some encoded \<Rightarrow> Inr encoded)"
| "encodeKey (Modified m) =
     (case ctrlLetter m of
        Some r \<Rightarrow> Inr r
      | None \<Rightarrow>
          (case specialWithModifiers m of
             Some r \<Rightarrow> Inr r
           | None \<Rightarrow>
               (case key m of
                  KStr s \<Rightarrow> (if alt m \<and> \<not> ctrl m \<and> \<not> meta m then Inr (ESC # s) else Inr s)
                | KSym _ \<Rightarrow> Inl (CannotEncodeKey m))))"

text \<open>\<open>inputs.map(encodeKey).join('')\<close>: the first key that cannot be encoded throws.\<close>

fun encodeKeys :: "KeyInput list \<Rightarrow> error + string" where
  "encodeKeys [] = Inr []"
| "encodeKeys (k # ks) =
     (case encodeKey k of
        Inl e \<Rightarrow> Inl e
      | Inr b \<Rightarrow> (case encodeKeys ks of Inl e \<Rightarrow> Inl e | Inr bs \<Rightarrow> Inr (b @ bs)))"

text \<open>The key helpers \<open>ctrl\<close>, \<open>alt\<close>, \<open>shift\<close> and \<open>meta\<close> of the module.\<close>

definition plainKey :: "KeyBase \<Rightarrow> ModifiedKey" where
  "plainKey k = \<lparr> key = k, ctrl = False, alt = False, shift = False, meta = False \<rparr>"

definition mk_ctrl :: "KeyBase \<Rightarrow> ModifiedKey" where
  "mk_ctrl k = (plainKey k)\<lparr> ctrl := True \<rparr>"

definition mk_alt :: "KeyBase \<Rightarrow> ModifiedKey" where
  "mk_alt k = (plainKey k)\<lparr> alt := True \<rparr>"

definition mk_shift :: "KeyBase \<Rightarrow> ModifiedKey" where
  "mk_shift k = (plainKey k)\<lparr> shift := True \<rparr>"

definition mk_meta :: "KeyBase \<Rightarrow> ModifiedKey" where
  "mk_meta k = (plainKey k)\<lparr> meta := True \<rparr>"

text \<open>\<open>formatKeyInputForLog\<close> (session.ts): the token written to the input history.\<close>

definition modifierPrefix :: "ModifiedKey \<Rightarrow> string" where
  "modifierPrefix m =
     (if ctrl m then ''Ctrl+'' else []) @ (if alt m then ''Alt+'' else [])
       @ (if shift m then ''Shift+'' else []) @ (if meta m then ''Meta+'' else [])"

fun formatKeyInputForLog :: "KeyInput \<Rightarrow> string" where
  "formatKeyInputForLog (Text s) = s"
| "formatKeyInputForLog (Special k) = ''<'' @ description k @ ''>''"
| "formatKeyInputForLog (Modified m) =
     ''<'' @ modifierPrefix m
        @ (case key m of KSym k \<Rightarrow> description k | KStr s \<Rightarrow> s) @ ''>''"

section \<open>Session (session.ts)\<close>

subsection \<open>Strings of the environment\<close>

text \<open>\<open>String.prototype.includes\<close>.\<close>

fun str_includes :: "string \<Rightarrow> string \<Rightarrow> bool" where
  "str_includes [] sub = (sub = [])"
| "str_includes (c # cs) sub = (take (length sub) (c # cs) = sub \<or> str_includes cs sub)"

text \<open>The white space of \<open>\s\<close> and of \<open>trim\<close>, among the code units below 256.\<close>

definition isSpace :: "char \<Rightarrow> bool" where
  "isSpace c = (of_char c \<in> {9, 10, 11, 12, 13, 32, 160 :: nat})"

definition trim :: "string \<Rightarrow> string" where
  "trim s = rev (dropWhile isSpace (rev (dropWhile isSpace s)))"

definition lowerString :: "string \<Rightarrow> string" where
  "lowerString s = map (\<lambda>c. char_of (toLowerCase c)) s"

text \<open>\<open>program.split(/\s+/)\<close>: a run of white space separates two fragments; a run at either
  end leaves an empty fragment there.\<close>

function split_ws :: "string \<Rightarrow> string list" where
  "split_ws [] = [[]]"
| "split_ws (c # cs) =
     (if isSpace c then [] # split_ws (dropWhile isSpace cs)
      else (c # hd (split_ws cs)) # tl (split_ws cs))"
  by pat_completeness auto
termination
  by (relation "measure length") (auto simp: le_imp_less_Suc length_dropWhile_le)

text \<open>The variables of \<open>process.env\<close> that the core reads, and \<open>process.cwd()\<close>.\<close>

record ProcessEnv =
  SHELL :: "string option"
  UMUX_LOG_DIR :: "string option"
  UMUX_LOG_INPUT :: "string option"
  UMUX_LOG_TERMINAL_QUERIES :: "string option"
  UMUX_TERMINAL_ENGINE :: "string option"
  processCwd :: string

definition shouldLogInput :: "ProcessEnv \<Rightarrow> bool" where
  "shouldLogInput env =
     (case UMUX_LOG_INPUT env of
        None \<Rightarrow> True
      | Some raw \<Rightarrow> lowerString (trim raw) \<notin> set [''0'', ''false'', ''no'', ''off''])"

definition logTerminalQueries :: "ProcessEnv \<Rightarrow> bool" where
  "logTerminalQueries env =
     (lowerString (trim (case UMUX_LOG_TERMINAL_QUERIES env of None \<Rightarrow> [] | Some v \<Rightarrow> v))
        \<in> set [''1'', ''true'', ''yes'', ''on''])"

subsection \<open>The collaborators: PTY, terminal engine, JSONL log\<close>

datatype TerminalEngineFactory =
  createXtermTerminalEngine | createGhosttyTerminalEngine | createGhosttyWasmTerminalEngine

text \<open>What the session hands to the terminal engine: the grid it was made with and the chunks
  written to it. \<open>syncFlush\<close> tells whether the engine calls \<open>onScreen\<close> inside \<open>write\<close>.\<close>

record TerminalEngine =
  factory :: TerminalEngineFactory
  engineCols :: nat
  engineRows :: nat
  engineWritten :: "string list"
  syncFlush :: bool
  engineDisposed :: bool

text \<open>What the session hands to \<open>node-pty\<close>: the arguments of \<open>pty.spawn\<close>, every string
  written to the child's input, and the signals sent.\<close>

record Pty =
  ptyFile :: string
  ptyArgs :: "string list"
  ptyName :: string
  ptyCwd :: string
  ptyEnvOverlay :: "(string \<times> string) list"
  ptyCols :: nat
  ptyRows :: nat
  ptyWritten :: "string list"
  ptySignals :: "string list"

datatype LogRecord =
    LogSpawn nat string string string
  | LogOutput nat string
  | LogInputText nat string
  | LogInputKey nat string
  | LogInputKeys nat "string list"
  | LogTerminalQueryResponse nat string string
  | LogExit nat int

subsection \<open>Events and subscribers\<close>

datatype EventName = E_output | E_exit | E_screen

datatype SessionEvent = Ev_output string nat | Ev_exit int | Ev_screen nat

fun eventName :: "SessionEvent \<Rightarrow> EventName" where
  "eventName (Ev_output _ _) = E_output"
| "eventName (Ev_exit _) = E_exit"
| "eventName (Ev_screen _) = E_screen"

text \<open>One call of a handler: which handler, which event, and what the getters \<open>isAlive\<close> and
  \<open>exitCode\<close> of the session return while the handler runs.\<close>

record Observation =
  handler :: nat
  event :: SessionEvent
  seenAlive :: bool
  seenExitCode :: "int option"

record SpawnOptions =
  opt_cwd :: "string option"
  opt_env :: "(string \<times> string) list"
  opt_name :: "string option"
  opt_cols :: "nat option"
  opt_rows :: "nat option"
  opt_terminalEngine :: "TerminalEngineFactory option"

text \<open>What the constructor takes from outside the program: the token of \<open>nanoid(8)\<close>, the
  clock, the pid of the spawned child, and whether the engine flushes inside \<open>write\<close>.\<close>

record Externals =
  ext_token :: string
  ext_now :: nat
  ext_pid :: nat
  ext_syncFlush :: bool

record SessionImpl =
  id :: string
  name :: string
  pid :: nat
  cwd :: string
  createdAt :: nat
  history :: History
  inputHistory :: History
  isAlive :: bool
  exitCode :: "int option"
  ptyProcess :: Pty
  terminalEngine :: TerminalEngine
  logInput :: bool
  jsonlOpen :: bool
  jsonlFile :: "LogRecord list"
  cols :: nat
  rows :: nat
  queryScanTail :: string
  eventHandlers :: "EventName \<Rightarrow> nat list"
  emitted :: "SessionEvent list"
  observed :: "Observation list"

definition writeJsonlLog :: "LogRecord \<Rightarrow> SessionImpl \<Rightarrow> SessionImpl" where
  "writeJsonlLog r s = (if jsonlOpen s then s\<lparr> jsonlFile := jsonlFile s @ [r] \<rparr> else s)"

definition closeJsonlLogStream :: "SessionImpl \<Rightarrow> SessionImpl" where
  "closeJsonlLogStream s = s\<lparr> jsonlOpen := False \<rparr>"

definition writeRaw :: "string \<Rightarrow> SessionImpl \<Rightarrow> SessionImpl" where
  "writeRaw d s =
     s\<lparr> ptyProcess := (ptyProcess s)\<lparr> ptyWritten := ptyWritten (ptyProcess s) @ [d] \<rparr> \<rparr>"

text \<open>\<open>emitEvent\<close>: every handler of the event's set is called, in insertion order, and sees
  the session as it is at that moment.\<close>

definition emitEvent :: "SessionEvent \<Rightarrow> SessionImpl \<Rightarrow> SessionImpl" where
  "emitEvent ev s =
     s\<lparr> emitted := emitted s @ [ev],
        observed := observed s @
          map (\<lambda>h. \<lparr> handler = h, event = ev, seenAlive = isAlive s, seenExitCode = exitCode s \<rparr>)
              (eventHandlers s (eventName ev)) \<rparr>"

definition on :: "EventName \<Rightarrow> nat \<Rightarrow> SessionImpl \<Rightarrow> SessionImpl" where
  "on e h s =
     (if h \<in> set (eventHandlers s e) then s
      else s\<lparr> eventHandlers := (eventHandlers s)(e := eventHandlers s e @ [h]) \<rparr>)"

definition off :: "EventName \<Rightarrow> nat \<Rightarrow> SessionImpl \<Rightarrow> SessionImpl" where
  "off e h s = s\<lparr> eventHandlers := (eventHandlers s)(e := removeAll h (eventHandlers s e)) \<rparr>"

subsection \<open>Constructor\<close>

text \<open>\<open>a || b\<close> on strings: the empty string is falsy.\<close>

definition orElse :: "string \<Rightarrow> string \<Rightarrow> string" where
  "orElse a b = (if a \<noteq> [] then a else b)"

definition program :: "ProcessEnv \<Rightarrow> string \<Rightarrow> string" where
  "program env command =
     orElse command (orElse (case SHELL env of None \<Rightarrow> [] | Some sh \<Rightarrow> sh) ''/bin/sh'')"

definition SessionImpl_new ::
  "ProcessEnv \<Rightarrow> Externals \<Rightarrow> string \<Rightarrow> SpawnOptions \<Rightarrow> nat option \<Rightarrow> string
     \<Rightarrow> TerminalEngineFactory option \<Rightarrow> SessionImpl" where
  "SessionImpl_new env ext command options historyLimit logDir terminalEngineFactory =
     (let sid = ''sess-'' @ ext_token ext;
          nm = (case opt_name options of None \<Rightarrow> sid | Some n \<Rightarrow> n);
          dir = (case opt_cwd options of None \<Rightarrow> processCwd env | Some d \<Rightarrow> d);
          logging = (trim logDir \<noteq> []);
          parts = split_ws (program env command);
          c = (case opt_cols options of None \<Rightarrow> 80 | Some n \<Rightarrow> n);
          r = (case opt_rows options of None \<Rightarrow> 43 | Some n \<Rightarrow> n);
          fac = (case opt_terminalEngine options of
                   Some f \<Rightarrow> f
                 | None \<Rightarrow> (case terminalEngineFactory of
                              Some f \<Rightarrow> f | None \<Rightarrow> createXtermTerminalEngine))
      in \<lparr> id = sid, name = nm, pid = ext_pid ext, cwd = dir, createdAt = ext_now ext,
           history = History_new historyLimit None,
           inputHistory = History_new historyLimit (Some False),
           isAlive = True, exitCode = None,
           ptyProcess =
             \<lparr> ptyFile = hd parts, ptyArgs = tl parts, ptyName = ''xterm-256color'',
               ptyCwd = dir, ptyEnvOverlay = opt_env options, ptyCols = c, ptyRows = r,
               ptyWritten = [], ptySignals = [] \<rparr>,
           terminalEngine =
             \<lparr> factory = fac, engineCols = c, engineRows = r, engineWritten = [],
               syncFlush = ext_syncFlush ext, engineDisposed = False \<rparr>,
           logInput = shouldLogInput env,
           jsonlOpen = logging,
           jsonlFile = (if logging then [LogSpawn (ext_now ext) sid nm dir] else []),
           cols = c, rows = r, queryScanTail = [],
           eventHandlers = (\<lambda>_. []), emitted = [], observed = [] \<rparr>)"

subsection \<open>Output path\<close>

text \<open>The replies of \<open>respondToTerminalQueries\<close> for a scan window, in the order the code
  sends them, each with its log note.\<close>

definition ST :: string where
  "ST = [ESC, CHR 0x5C]"

definition BEL :: string where
  "BEL = [CHR 0x07]"

definition queryReplies :: "nat \<Rightarrow> nat \<Rightarrow> string \<Rightarrow> (string \<times> string) list" where
  "queryReplies rws cls scan =
     (if str_includes scan (ESC # ''[6n'') then [(ESC # ''[1;1R'', ''CPR'')] else [])
   @ (if str_includes scan (ESC # ''[5n'') then [(ESC # ''[0n'', ''DSR'')] else [])
   @ (if str_includes scan (ESC # ''[c'') \<or> str_includes scan (ESC # ''[0c'')
      then [(ESC # ''[?1;2c'', ''DA1'')] else [])
   @ (if str_includes scan (ESC # ''[>c'') \<or> str_includes scan (ESC # ''[>0c'')
      then [(ESC # ''[>0;0;0c'', ''DA2'')] else [])
   @ (if str_includes scan (ESC # ''Z'') then [(ESC # ''[?1;2c'', ''DECID'')] else [])
   @ (if str_includes scan (ESC # ''[?u'') then [(ESC # ''[?0u'', ''KITTY_KBD_QUERY'')] else [])
   @ (if str_includes scan (ESC # ''[18t'')
      then [(ESC # ''[8;'' @ decimal (max 1 rws) @ '';'' @ decimal (max 1 cls) @ ''t'',
             ''XTERM_SIZE_CHARS'')] else [])
   @ (if str_includes scan (ESC # ''[14t'') then [(ESC # ''[4;0;0t'', ''XTERM_SIZE_PX'')] else [])
   @ (if str_includes scan (ESC # '']10;?'' @ ST) \<or> str_includes scan (ESC # '']10;?'' @ BEL)
      then [(ESC # '']10;rgb:ffff/ffff/ffff'' @ ST, ''OSC_FG_QUERY'')] else [])
   @ (if str_includes scan (ESC # '']11;?'' @ ST) \<or> str_includes scan (ESC # '']11;?'' @ BEL)
      then [(ESC # '']11;rgb:0000/0000/0000'' @ ST, ''OSC_BG_QUERY'')] else [])
   @ (if str_includes scan (ESC # '']12;?'' @ ST) \<or> str_includes scan (ESC # '']12;?'' @ BEL)
      then [(ESC # '']12;rgb:ffff/ffff/ffff'' @ ST, ''OSC_CURSOR_QUERY'')] else [])"

text \<open>The local function \<open>reply\<close>: log the reply when asked to, then write it to the PTY.\<close>

definition reply :: "bool \<Rightarrow> nat \<Rightarrow> SessionImpl \<Rightarrow> string \<times> string \<Rightarrow> SessionImpl" where
  "reply logging now s pn =
     writeRaw (fst pn)
       (if logging then writeJsonlLog (LogTerminalQueryResponse now (snd pn) (fst pn)) s else s)"

definition respondToTerminalQueries ::
  "ProcessEnv \<Rightarrow> nat \<Rightarrow> string \<Rightarrow> SessionImpl \<Rightarrow> SessionImpl" where
  "respondToTerminalQueries env now data s =
     (let scan = queryScanTail s @ data;
          s1 = s\<lparr> queryScanTail := js_slice (- 64) None scan \<rparr>
      in foldl (reply (logTerminalQueries env) now) s1 (queryReplies (rows s1) (cols s1) scan))"

text \<open>\<open>terminalEngine.write(data, onScreen)\<close>: an engine that flushes inside \<open>write\<close> fires the
  \<open>screen\<close> event at once; otherwise the event comes with a later \<open>EngineFlushed\<close> input.\<close>

definition engineWrite :: "nat \<Rightarrow> string \<Rightarrow> SessionImpl \<Rightarrow> SessionImpl" where
  "engineWrite now data s =
     (let s1 = s\<lparr> terminalEngine :=
                   (terminalEngine s)\<lparr> engineWritten := engineWritten (terminalEngine s) @ [data] \<rparr> \<rparr>
      in if syncFlush (terminalEngine s) then emitEvent (Ev_screen now) s1 else s1)"

text \<open>The \<open>onData\<close> handler of the constructor.\<close>

definition onData :: "ProcessEnv \<Rightarrow> nat \<Rightarrow> string \<Rightarrow> SessionImpl \<Rightarrow> SessionImpl" where
  "onData env now data s =
     (let s1 = respondToTerminalQueries env now data s;
          s2 = writeJsonlLog (LogOutput now data) s1;
          s3 = s2\<lparr> history := History_append now data (history s2) \<rparr>;
          s4 = engineWrite now data s3
      in emitEvent (Ev_output data now) s4)"

text \<open>The \<open>onExit\<close> handler of the constructor.\<close>

definition onExit :: "nat \<Rightarrow> int \<Rightarrow> SessionImpl \<Rightarrow> SessionImpl" where
  "onExit now code s =
     (let s1 = s\<lparr> isAlive := False, exitCode := Some code \<rparr>;
          s2 = writeJsonlLog (LogExit now code) s1;
          s3 = closeJsonlLogStream s2
      in emitEvent (Ev_exit code) s3)"

subsection \<open>Input path\<close>

text \<open>A method that throws leaves the session as it is at the \<open>throw\<close>: the result is
  \<open>Inl (error, session then)\<close>, and \<open>Inr\<close> of the session when the method returns.\<close>

type_synonym outcome = "(error \<times> SessionImpl) + SessionImpl"

definition send :: "nat \<Rightarrow> string \<Rightarrow> SessionImpl \<Rightarrow> outcome" where
  "send now data s =
     (if \<not> isAlive s then Inl (SessionNotAlive (id s), s)
      else let s1 = (if logInput s
                     then writeJsonlLog (LogInputText now data)
                            (s\<lparr> inputHistory := History_append now data (inputHistory s) \<rparr>)
                     else s)
           in Inr (writeRaw data s1))"

definition sendKey :: "nat \<Rightarrow> KeyInput \<Rightarrow> SessionImpl \<Rightarrow> outcome" where
  "sendKey now k s =
     (if \<not> isAlive s then Inl (SessionNotAlive (id s), s)
      else let s1 = (if logInput s
                     then writeJsonlLog (LogInputKey now (formatKeyInputForLog k))
                            (s\<lparr> inputHistory :=
                                  History_append now (formatKeyInputForLog k) (inputHistory s) \<rparr>)
                     else s)
           in case encodeKey k of
                Inl e \<Rightarrow> Inl (e, s1)
              | Inr bytes \<Rightarrow> Inr (writeRaw bytes s1))"

definition sendKeys :: "nat \<Rightarrow> KeyInput list \<Rightarrow> SessionImpl \<Rightarrow> outcome" where
  "sendKeys now ks s =
     (if \<not> isAlive s then Inl (SessionNotAlive (id s), s)
      else let s1 = (if logInput s
                     then writeJsonlLog (LogInputKeys now (map formatKeyInputForLog ks))
                            (s\<lparr> inputHistory :=
                                  foldl (\<lambda>h k. History_append now (formatKeyInputForLog k) h)
                                        (inputHistory s) ks \<rparr>)
                     else s)
           in case encodeKeys ks of
                Inl e \<Rightarrow> Inl (e, s1)
              | Inr bytes \<Rightarrow> Inr (writeRaw bytes s1))"

definition kill :: "string option \<Rightarrow> SessionImpl \<Rightarrow> SessionImpl" where
  "kill signal s =
     (if isAlive s
      then s\<lparr> ptyProcess := (ptyProcess s)\<lparr> ptySignals := ptySignals (ptyProcess s)
                  @ [case signal of None \<Rightarrow> ''SIGTERM'' | Some sg \<Rightarrow> sg] \<rparr> \<rparr>
      else s)"

text \<open>\<open>resize(cols, rows)\<close>. The first statement is \<open>ptyProcess.resize\<close> of \<open>node-pty\<close>, which
  throws when a size is not positive and when the child has exited (its descriptor is closed);
  then the engine and the two fields are left as they were.\<close>

definition resize :: "nat \<Rightarrow> nat \<Rightarrow> SessionImpl \<Rightarrow> outcome" where
  "resize c r s =
     (if c = 0 \<or> r = 0 \<or> \<not> isAlive s then Inl (PtyResizeFailed c r, s)
      else Inr (s\<lparr> ptyProcess := (ptyProcess s)\<lparr> ptyCols := c, ptyRows := r \<rparr>,
                  terminalEngine := (terminalEngine s)\<lparr> engineCols := c, engineRows := r \<rparr>,
                  cols := c, rows := r \<rparr>))"

definition dispose :: "SessionImpl \<Rightarrow> SessionImpl" where
  "dispose s =
     (let s1 = kill None s;
          s2 = s1\<lparr> terminalEngine := (terminalEngine s1)\<lparr> engineDisposed := True \<rparr> \<rparr>;
          s3 = closeJsonlLogStream s2
      in s3\<lparr> eventHandlers := (\<lambda>_. []) \<rparr>)"

subsection \<open>A session under its callers and its child\<close>

text \<open>Everything that can happen to a session: a callback of the PTY or of the engine, or a
  call of one of its methods.\<close>

datatype SessionInput =
    PtyData nat string
  | PtyExit nat int
  | EngineFlushed nat
  | Send nat string
  | SendKey nat KeyInput
  | SendKeys nat "KeyInput list"
  | Kill "string option"
  | Resize nat nat
  | On EventName nat
  | Off EventName nat
  | Dispose

fun step :: "ProcessEnv \<Rightarrow> SessionInput \<Rightarrow> SessionImpl \<Rightarrow> outcome" where
  "step env (PtyData now d) s = Inr (onData env now d s)"
| "step env (PtyExit now code) s = Inr (onExit now code s)"
| "step env (EngineFlushed now) s = Inr (emitEvent (Ev_screen now) s)"
| "step env (Send now d) s = send now d s"
| "step env (SendKey now k) s = sendKey now k s"
| "step env (SendKeys now ks) s = sendKeys now ks s"
| "step env (Kill sg) s = Inr (kill sg s)"
| "step env (Resize c r) s = resize c r s"
| "step env (On e h) s = Inr (on e h s)"
| "step env (Off e h) s = Inr (off e h s)"
| "step env Dispose s = Inr (dispose s)"

text \<open>The session after an input, whether the call returned or threw.\<close>

definition after :: "outcome \<Rightarrow> SessionImpl" where
  "after r = (case r of Inl (e, s) \<Rightarrow> s | Inr s \<Rightarrow> s)"

definition run :: "ProcessEnv \<Rightarrow> SessionInput list \<Rightarrow> SessionImpl \<Rightarrow> SessionImpl" where
  "run env ins s = foldl (\<lambda>s' i. after (step env i s')) s ins"

fun isPtyExit :: "SessionInput \<Rightarrow> bool" where
  "isPtyExit (PtyExit _ _) = True"
| "isPtyExit _ = False"

fun isExitEvent :: "SessionEvent \<Rightarrow> bool" where
  "isExitEvent (Ev_exit _) = True"
| "isExitEvent _ = False"

text \<open>The chunks the child wrote, in order, among the inputs of a session.\<close>

fun childChunks :: "SessionInput list \<Rightarrow> (nat \<times> string) list" where
  "childChunks [] = []"
| "childChunks (PtyData now d # ins) = (now, d) # childChunks ins"
| "childChunks (_ # ins) = childChunks ins"

section \<open>History search (history.ts)\<close>

text \<open>
  A \<open>RegExp\<close> object as \<open>search\<close> uses it: its \<open>global\<close> flag, and what \<open>exec\<close> finds in a
  line when the search starts at \<open>lastIndex\<close> (a regular expression that is not global always
  starts at 0): the index and the text of the match, or nothing. After a match a global
  expression sets \<open>lastIndex\<close> to the end of the match.
\<close>

record RegExpObject =
  global :: bool
  execAt :: "string \<Rightarrow> nat \<Rightarrow> (nat \<times> string) option"

record SearchMatch =
  line :: nat
  column :: nat
  matchText :: string
  contextBefore :: string
  contextAfter :: string

text \<open>The \<open>while\<close> loop of \<open>search\<close> on one line, for a global expression. It does not end
  when a match leaves \<open>lastIndex\<close> where it was; then the result is \<open>None\<close>.\<close>

partial_function (option) matchesFrom ::
  "(string \<Rightarrow> nat \<Rightarrow> (nat \<times> string) option) \<Rightarrow> string \<Rightarrow> nat
     \<Rightarrow> (nat \<times> string) list \<Rightarrow> (nat \<times> string) list option" where
  "matchesFrom ex ln lastIndex acc =
     (case ex ln lastIndex of
        None \<Rightarrow> Some acc
      | Some (idx, txt) \<Rightarrow> matchesFrom ex ln (idx + length txt) (acc @ [(idx, txt)]))"

definition lineMatches :: "RegExpObject \<Rightarrow> string \<Rightarrow> (nat \<times> string) list option" where
  "lineMatches re ln =
     (if global re then matchesFrom (execAt re) ln 0 []
      else Some (case execAt re ln 0 of None \<Rightarrow> [] | Some m \<Rightarrow> [m]))"

definition searchLine :: "RegExpObject \<Rightarrow> string list \<Rightarrow> nat \<Rightarrow> SearchMatch list option" where
  "searchLine re ls i =
     map_option
       (map (\<lambda>(idx, txt).
          \<lparr> line = i, column = idx, matchText = txt,
            contextBefore = (if i > 0 then ls ! (i - 1) else []),
            contextAfter = (if i < length ls - 1 then ls ! (i + 1) else []) \<rparr>))
       (lineMatches re (ls ! i))"

text \<open>The results of the lines one after the other; no result at all when a line's loop does
  not end.\<close>

fun collect :: "'a list option list \<Rightarrow> 'a list option" where
  "collect [] = Some []"
| "collect (None # rs) = None"
| "collect (Some xs # rs) = (case collect rs of None \<Rightarrow> None | Some ys \<Rightarrow> Some (xs @ ys))"

definition History_search :: "RegExpObject \<Rightarrow> History \<Rightarrow> SearchMatch list option" where
  "History_search re h = collect (map (searchLine re (lines h)) [0..<length (lines h)])"

text \<open>A regular expression that matches a fixed text literally, as \<open>new RegExp(lit, 'g')\<close> and
  \<open>new RegExp(lit)\<close> do when \<open>lit\<close> has no special character.\<close>

fun indexFrom :: "string \<Rightarrow> string \<Rightarrow> nat \<Rightarrow> nat option" where
  "indexFrom [] sub i = (if sub = [] then Some i else None)"
| "indexFrom (c # cs) sub i =
     (if take (length sub) (c # cs) = sub then Some i else indexFrom cs sub (Suc i))"

definition literalAt :: "string \<Rightarrow> string \<Rightarrow> nat \<Rightarrow> (nat \<times> string) option" where
  "literalAt lit ln lastIndex =
     (if lastIndex > length ln then None
      else map_option (\<lambda>i. (i, lit)) (indexFrom (drop lastIndex ln) lit lastIndex))"

definition literal :: "bool \<Rightarrow> string \<Rightarrow> RegExpObject" where
  "literal g lit = \<lparr> global = g, execAt = literalAt lit \<rparr>"

section \<open>Umux (umux.ts)\<close>

record UmuxConfig =
  cfg_logDir :: "string option"
  cfg_historyLimit :: "nat option"
  cfg_defaultShell :: "string option"
  cfg_terminalEngine :: "TerminalEngineFactory option"

text \<open>\<open>Required<UmuxConfig>\<close>, as the constructor fills it in.\<close>

record Config =
  logDir :: string
  historyLimit :: nat
  defaultShell :: string
  defaultEngine :: TerminalEngineFactory

record Umux =
  config :: Config
  sessions :: "string \<rightharpoonup> SessionImpl"

definition Umux_new :: "UmuxConfig \<Rightarrow> ProcessEnv \<Rightarrow> Umux" where
  "Umux_new cfg env =
     (let envEngine = trim (case UMUX_TERMINAL_ENGINE env of None \<Rightarrow> [] | Some v \<Rightarrow> v);
          fallbackEngine =
            (if envEngine = ''xterm'' then createXtermTerminalEngine
             else if envEngine = ''ghostty-strict'' then createGhosttyWasmTerminalEngine
             else createGhosttyTerminalEngine)
      in \<lparr> config =
             \<lparr> logDir = (case cfg_logDir cfg of
                           Some d \<Rightarrow> d
                         | None \<Rightarrow> (case UMUX_LOG_DIR env of Some d \<Rightarrow> d | None \<Rightarrow> [])),
               historyLimit = (case cfg_historyLimit cfg of Some n \<Rightarrow> n | None \<Rightarrow> 10000),
               defaultShell = (case cfg_defaultShell cfg of
                                 Some sh \<Rightarrow> sh
                               | None \<Rightarrow> (case SHELL env of Some sh \<Rightarrow> sh | None \<Rightarrow> ''/bin/sh'')),
               defaultEngine = (case cfg_terminalEngine cfg of
                                  Some f \<Rightarrow> f | None \<Rightarrow> fallbackEngine) \<rparr>,
           sessions = Map.empty \<rparr>)"

text \<open>\<open>spawn(command, options)\<close>: the new session and the registry that holds it. (The two
  forwarding subscriptions and the \<open>session:create\<close> event are left out.)\<close>

definition spawn ::
  "ProcessEnv \<Rightarrow> Externals \<Rightarrow> string \<Rightarrow> SpawnOptions \<Rightarrow> Umux \<Rightarrow> SessionImpl \<times> Umux" where
  "spawn env ext command options u =
     (let fac = (case opt_terminalEngine options of
                   Some f \<Rightarrow> f | None \<Rightarrow> defaultEngine (config u));
          session = SessionImpl_new env ext command options
                      (Some (historyLimit (config u))) (logDir (config u)) (Some fac)
      in (session, u\<lparr> sessions := (sessions u)(id session \<mapsto> session) \<rparr>))"

definition noOptions :: SpawnOptions where
  "noOptions =
     \<lparr> opt_cwd = None, opt_env = [], opt_name = None, opt_cols = None, opt_rows = None,
       opt_terminalEngine = None \<rparr>"

subsection \<open>waitFor\<close>

text \<open>
  A pattern of a wait condition is a \<open>RegExp\<close> object, given by what \<open>exec\<close> returns on a
  string: the match array or nothing. (A pattern given as a string is first compiled with
  \<open>new RegExp\<close>; the patterns here are the compiled ones, each object used by one wait only.)
  An absent number, and the number 0, are falsy; an absent flag is \<open>False\<close>.
\<close>

type_synonym RegExp = "string \<Rightarrow> string list option"

record WaitCondition =
  pattern :: "RegExp option"
  screenPattern :: "RegExp option"
  idle :: "nat option"
  exit :: bool
  ready :: bool
  timeout :: "nat option"
  not :: "RegExp option"

datatype Reason =
  R_pattern | R_screen | R_idle | R_exit | R_ready | R_timeout | R_rejected

record WaitResult =
  reason :: Reason
  match :: "string list option"
  resultExitCode :: "int option"
  outputText :: string
  waitedMs :: nat

text \<open>The variables of the promise's executor. A timer is \<open>Some delay\<close> while it is pending
  and \<open>None\<close> when it was never set, was cleared or has fired; a subscription is \<open>True\<close> while
  the handler is in the session's set. \<open>resolutions\<close> lists the calls of \<open>resolve\<close>.\<close>

record WaitState =
  startTime :: nat
  outputBuffer :: string
  screenBuffer :: string
  scanTail :: string
  idleTimer :: "nat option"
  timeoutTimer :: "nat option"
  readyPollTimer :: bool
  resolved :: bool
  onOutputSubscribed :: bool
  onExitSubscribed :: bool
  onScreenSubscribed :: bool
  resolutions :: "WaitResult list"

definition truthy :: "nat option \<Rightarrow> bool" where
  "truthy n = (case n of None \<Rightarrow> False | Some k \<Rightarrow> k \<noteq> 0)"

definition scanTailLimit :: int where
  "scanTailLimit = 8 * 1024"

definition cleanup :: "WaitState \<Rightarrow> WaitState" where
  "cleanup w =
     w\<lparr> idleTimer := None, timeoutTimer := None, readyPollTimer := False,
        onOutputSubscribed := False, onExitSubscribed := False, onScreenSubscribed := False \<rparr>"

definition result :: "Reason \<Rightarrow> string list option \<Rightarrow> int option \<Rightarrow> string \<Rightarrow> WaitResult" where
  "result r m c out = \<lparr> reason = r, match = m, resultExitCode = c, outputText = out, waitedMs = 0 \<rparr>"

definition finish :: "nat \<Rightarrow> WaitResult \<Rightarrow> WaitState \<Rightarrow> WaitState" where
  "finish now r w =
     (if resolved w then w
      else (cleanup (w\<lparr> resolved := True \<rparr>))
             \<lparr> resolutions := resolutions w @ [r\<lparr> waitedMs := now - startTime w \<rparr>] \<rparr>)"

definition resetIdleTimer :: "WaitCondition \<Rightarrow> WaitState \<Rightarrow> WaitState" where
  "resetIdleTimer c w = w\<lparr> idleTimer := (if truthy (idle c) then idle c else None) \<rparr>"

definition onOutput :: "WaitCondition \<Rightarrow> nat \<Rightarrow> string \<Rightarrow> WaitState \<Rightarrow> WaitState" where
  "onOutput c now data w =
     (let scan = js_slice (- scanTailLimit) None (scanTail w @ data);
          w1 = w\<lparr> outputBuffer := outputBuffer w @ data, scanTail := scan \<rparr>
      in case (case not c of None \<Rightarrow> None | Some notRegex \<Rightarrow> notRegex scan) of
           Some notMatch \<Rightarrow>
             finish now (result R_rejected (Some notMatch) None (outputBuffer w1)) w1
         | None \<Rightarrow>
             (case (case pattern c of None \<Rightarrow> None | Some regex \<Rightarrow> regex scan) of
                Some m \<Rightarrow> finish now (result R_pattern (Some m) None (outputBuffer w1)) w1
              | None \<Rightarrow> resetIdleTimer c w1))"

definition onExitWait :: "WaitCondition \<Rightarrow> nat \<Rightarrow> int \<Rightarrow> WaitState \<Rightarrow> WaitState" where
  "onExitWait c now code w =
     (if exit c then finish now (result R_exit None (Some code) (outputBuffer w)) w
      else if ready c then finish now (result R_ready None None (outputBuffer w)) w
      else w)"

text \<open>\<open>onScreen\<close>; \<open>content\<close> is what \<open>session.capture({format: 'text'}).content\<close> returns.\<close>

definition onScreen :: "WaitCondition \<Rightarrow> nat \<Rightarrow> string \<Rightarrow> WaitState \<Rightarrow> WaitState" where
  "onScreen c now content w =
     (case screenPattern c of
        None \<Rightarrow> w
      | Some regex \<Rightarrow>
          (let w1 = w\<lparr> screenBuffer := content \<rparr>
           in case regex content of
                Some m \<Rightarrow> finish now (result R_screen (Some m) None content) w1
              | None \<Rightarrow> w1))"

text \<open>The getter \<open>foregroundProcess\<close>, as far as a wait reads it: is it non-null? \<open>probe\<close>
  tells whether \<open>pgrep\<close> and \<open>ps\<close> find a child in the foreground.\<close>

definition foregroundBusy :: "bool \<Rightarrow> bool \<Rightarrow> bool" where
  "foregroundBusy alive probe = (if \<not> alive then False else probe)"

definition readyPoll :: "nat \<Rightarrow> bool \<Rightarrow> bool \<Rightarrow> WaitState \<Rightarrow> WaitState" where
  "readyPoll now alive probe w =
     (if \<not> alive then finish now (result R_ready None None (outputBuffer w)) w
      else if \<not> foregroundBusy alive probe
           then finish now (result R_ready None None (outputBuffer w)) w
      else w)"

text \<open>The body of the executor, from \<open>startTime\<close> to its end. \<open>screen\<close> is the current text
  capture of the session and \<open>probe\<close> the answer of the foreground probe.\<close>

definition initialWait :: "nat \<Rightarrow> WaitState" where
  "initialWait now =
     \<lparr> startTime = now, outputBuffer = [], screenBuffer = [], scanTail = [],
       idleTimer = None, timeoutTimer = None, readyPollTimer = False, resolved = False,
       onOutputSubscribed = False, onExitSubscribed = False, onScreenSubscribed = False,
       resolutions = [] \<rparr>"

definition checkExited :: "WaitCondition \<Rightarrow> nat \<Rightarrow> SessionImpl \<Rightarrow> WaitState \<Rightarrow> WaitState" where
  "checkExited c now s w =
     (if \<not> isAlive s \<and> exit c
      then finish now (result R_exit None (Some (case exitCode s of None \<Rightarrow> 0 | Some n \<Rightarrow> n))
                         (History_getAll (history s))) w
      else w)"

definition checkReady ::
  "WaitCondition \<Rightarrow> nat \<Rightarrow> SessionImpl \<Rightarrow> bool \<Rightarrow> WaitState \<Rightarrow> WaitState" where
  "checkReady c now s probe w =
     (if ready c
      then (if \<not> foregroundBusy (isAlive s) probe
            then finish now (result R_ready None None (outputBuffer w)) w
            else checkExited c now s (w\<lparr> readyPollTimer := True \<rparr>))
      else checkExited c now s w)"

definition checkScreen ::
  "WaitCondition \<Rightarrow> nat \<Rightarrow> SessionImpl \<Rightarrow> string \<Rightarrow> bool \<Rightarrow> WaitState \<Rightarrow> WaitState" where
  "checkScreen c now s screen probe w =
     (case screenPattern c of
        None \<Rightarrow> checkReady c now s probe w
      | Some regex \<Rightarrow>
          (let w1 = w\<lparr> screenBuffer := screen \<rparr>
           in case regex screen of
                Some m \<Rightarrow> finish now (result R_screen (Some m) None screen) w1
              | None \<Rightarrow> checkReady c now s probe w1))"

definition checkNot ::
  "WaitCondition \<Rightarrow> nat \<Rightarrow> SessionImpl \<Rightarrow> string \<Rightarrow> bool \<Rightarrow> WaitState \<Rightarrow> WaitState" where
  "checkNot c now s screen probe w =
     (case not c of
        None \<Rightarrow> checkScreen c now s screen probe w
      | Some notRegex \<Rightarrow>
          (let existingOutput = History_getAll (history s);
               w1 = w\<lparr> outputBuffer := existingOutput \<rparr>
           in case notRegex existingOutput of
                Some notMatch \<Rightarrow>
                  finish now (result R_rejected (Some notMatch) None existingOutput) w1
              | None \<Rightarrow> checkScreen c now s screen probe w1))"

definition checkPattern ::
  "WaitCondition \<Rightarrow> nat \<Rightarrow> SessionImpl \<Rightarrow> string \<Rightarrow> bool \<Rightarrow> WaitState \<Rightarrow> WaitState" where
  "checkPattern c now s screen probe w =
     (case pattern c of
        None \<Rightarrow> checkNot c now s screen probe w
      | Some regex \<Rightarrow>
          (let existingOutput = History_getAll (history s);
               w1 = w\<lparr> outputBuffer := existingOutput \<rparr>
           in case regex existingOutput of
                Some m \<Rightarrow> finish now (result R_pattern (Some m) None existingOutput) w1
              | None \<Rightarrow> checkNot c now s screen probe w1))"

definition waitFor :: "WaitCondition \<Rightarrow> nat \<Rightarrow> SessionImpl \<Rightarrow> string \<Rightarrow> bool \<Rightarrow> WaitState" where
  "waitFor c now s screen probe =
     (let w0 = initialWait now;
          w1 = w0\<lparr> timeoutTimer := (if truthy (timeout c) then timeout c else None) \<rparr>;
          w2 = w1\<lparr> onOutputSubscribed := True, onExitSubscribed := True,
                   onScreenSubscribed := True \<rparr>;
          w3 = resetIdleTimer c w2
      in checkPattern c now s screen probe w3)"

text \<open>What the event loop can deliver to a wait: an event of the session, a timer that
  fires, a tick of the ready poll (with what the session's getters return then). A handler
  runs only while it is subscribed, a timer fires only while it is pending.\<close>

datatype WaitEvent =
    W_output string
  | W_exit int
  | W_screen string
  | W_idleFired
  | W_timeoutFired
  | W_readyPoll bool bool

fun deliver :: "WaitCondition \<Rightarrow> nat \<times> WaitEvent \<Rightarrow> WaitState \<Rightarrow> WaitState" where
  "deliver c (now, W_output data) w = (if onOutputSubscribed w then onOutput c now data w else w)"
| "deliver c (now, W_exit code) w = (if onExitSubscribed w then onExitWait c now code w else w)"
| "deliver c (now, W_screen content) w =
     (if onScreenSubscribed w then onScreen c now content w else w)"
| "deliver c (now, W_idleFired) w =
     (if idleTimer w \<noteq> None
      then finish now (result R_idle None None (outputBuffer w)) (w\<lparr> idleTimer := None \<rparr>)
      else w)"
| "deliver c (now, W_timeoutFired) w =
     (if timeoutTimer w \<noteq> None
      then finish now (result R_timeout None None (outputBuffer w)) (w\<lparr> timeoutTimer := None \<rparr>)
      else w)"
| "deliver c (now, W_readyPoll alive probe) w =
     (if readyPollTimer w then readyPoll now alive probe w else w)"

definition deliverAll :: "WaitCondition \<Rightarrow> (nat \<times> WaitEvent) list \<Rightarrow> WaitState \<Rightarrow> WaitState" where
  "deliverAll c evs w = foldl (\<lambda>w' e. deliver c e w') w evs"

text \<open>The pattern \<open>new RegExp(lit)\<close> of a text without special characters.\<close>

definition literalRegExp :: "string \<Rightarrow> RegExp" where
  "literalRegExp lit = (\<lambda>s. if str_includes s lit then Some [lit] else None)"

definition noCondition :: WaitCondition where
  "noCondition =
     \<lparr> pattern = None, screenPattern = None, idle = None, exit = False, ready = False,
       timeout = None, not = None \<rparr>"

section \<open>Concrete inputs\<close>

text \<open>The text \<open>"1\n2\n3\n4\n5\n"\<close> of the history-limit scenario.\<close>

definition digits_1_to_5 :: string where
  "digits_1_to_5 =
     ''1'' @ newline # ''2'' @ newline # ''3'' @ newline # ''4'' @ newline # ''5'' @ [newline]"

text \<open>An environment, a configuration and a fresh session to evaluate the code on.\<close>

definition env0 :: ProcessEnv where
  "env0 = \<lparr> SHELL = Some ''/bin/bash'', UMUX_LOG_DIR = None, UMUX_LOG_INPUT = None,
            UMUX_LOG_TERMINAL_QUERIES = None, UMUX_TERMINAL_ENGINE = None,
            processCwd = ''/home/agent'' \<rparr>"

definition ext0 :: Externals where
  "ext0 = \<lparr> ext_token = ''V1StGXR8'', ext_now = 0, ext_pid = 4242, ext_syncFlush = True \<rparr>"

definition cfg0 :: UmuxConfig where
  "cfg0 = \<lparr> cfg_logDir = None, cfg_historyLimit = None, cfg_defaultShell = None,
            cfg_terminalEngine = None \<rparr>"

definition cfgZsh :: UmuxConfig where
  "cfgZsh = cfg0\<lparr> cfg_defaultShell := Some ''/bin/zsh'' \<rparr>"

definition sFresh :: SessionImpl where
  "sFresh = SessionImpl_new env0 ext0 [] noOptions None [] None"

definition sErr :: SessionImpl where
  "sErr = onData env0 1 ''error success'' sFresh"

definition cBoth :: WaitCondition where
  "cBoth = noCondition\<lparr> pattern := Some (literalRegExp ''success''),
                          not := Some (literalRegExp ''error''), timeout := Some 5000 \<rparr>"

text \<open>What a subscriber must see when it is handed an \<open>exit\<close> event: the session no longer
  alive and the event's code as its exit code. Other events ask for nothing.\<close>

fun exitSeenDead :: "Observation \<Rightarrow> bool" where
  "exitSeenDead ob =
     (case event ob of
        Ev_exit code \<Rightarrow> \<not> seenAlive ob \<and> seenExitCode ob = Some code
      | _ \<Rightarrow> True)"


text \<open>The two kinds of state a wait can be in. A settled wait has resolved: every timer is
  cleared, every handler is detached and \<open>resolve\<close> was called once. A pending wait has not:
  \<open>resolve\<close> was never called, and the timeout timer is as the executor set it.\<close>

definition settled :: "WaitState \<Rightarrow> bool" where
  "settled w =
     (resolved w \<and> idleTimer w = None \<and> timeoutTimer w = None \<and> \<not> readyPollTimer w
      \<and> \<not> onOutputSubscribed w \<and> \<not> onExitSubscribed w \<and> \<not> onScreenSubscribed w
      \<and> length (resolutions w) = 1)"

definition pending :: "WaitCondition \<Rightarrow> WaitState \<Rightarrow> bool" where
  "pending c w =
     (\<not> resolved w \<and> resolutions w = []
      \<and> timeoutTimer w = (if truthy (timeout c) then timeout c else None))"

text \<open>A wait whose only field is the timeout 0.\<close>

definition cZero :: WaitCondition where
  "cZero = noCondition\<lparr> timeout := Some 0 \<rparr>"

text \<open>A history with one complete line \<open>foo\<close> and the partial line \<open>bar\<close>.\<close>

definition hFooBar :: History where
  "hFooBar = History_append 0 (''foo'' @ newline # ''bar'') (History_new (Some 10) None)"


text \<open>Ctrl+Alt+c: a combination that no rule of the codec names.\<close>

definition ctrlAltC :: KeyInput where
  "ctrlAltC = Modified \<lparr> key = KStr ''c'', ctrl = True, alt = True, shift = False, meta = False \<rparr>"

section \<open>Facts about splitting and the bounded line store\<close>

lemma split_nl_nonempty: "split_nl s \<noteq> []"
  by (induction s) auto

lemma split_nl_append:
  "split_nl (s @ d) = butlast (split_nl s) @ split_nl (last (split_nl s) @ d)"
proof (induction s)
  case Nil
  show ?case by simp
next
  case (Cons c cs)
  obtain p ps where S: "split_nl cs = p # ps"
    using split_nl_nonempty [of cs] by (cases "split_nl cs") auto
  show ?case
  proof (cases "c = newline")
    case True
    with Cons S show ?thesis by simp
  next
    case False
    show ?thesis
    proof (cases ps)
      case Nil
      with False Cons S show ?thesis by simp
    next
      case (Cons q qs)
      with False Cons.IH S show ?thesis by simp
    qed
  qed
qed

lemma takeLast_length: "length (takeLast n xs) \<le> n"
  by (simp add: takeLast_def)

lemma takeLast_takeLast_append: "takeLast n (takeLast n a @ b) = takeLast n (a @ b)"
  by (cases "length a \<le> n") (auto simp: takeLast_def add.commute)

lemma push_line_takeLast:
  "length ls \<le> n \<Longrightarrow> push_line n ls l = takeLast n (ls @ [l])"
proof (cases "length ls < n")
  case True
  then show ?thesis by (simp add: push_line_def takeLast_def)
next
  case False
  assume "length ls \<le> n"
  with False have n: "n = length ls" by simp
  then show ?thesis by (cases ls) (simp_all add: push_line_def takeLast_def)
qed

lemma foldl_push_line:
  "length ls \<le> n \<Longrightarrow> foldl (push_line n) ls xs = takeLast n (ls @ xs)"
proof (induction xs arbitrary: ls)
  case Nil
  then show ?case by (simp add: takeLast_def)
next
  case (Cons x xs)
  have "foldl (push_line n) (push_line n ls x) xs = takeLast n (push_line n ls x @ xs)"
    using Cons.prems by (intro Cons.IH) (simp add: push_line_takeLast takeLast_length)
  also have "\<dots> = takeLast n (takeLast n (ls @ [x]) @ xs)"
    using Cons.prems by (simp add: push_line_takeLast)
  also have "\<dots> = takeLast n ((ls @ [x]) @ xs)"
    by (rule takeLast_takeLast_append)
  finally show ?case by simp
qed

lemma History_append_stream:
  assumes "lines h = takeLast (limit h) (butlast (split_nl s))"
      and "currentLine h = last (split_nl s)"
  shows "lines (History_append t d h) = takeLast (limit h) (butlast (split_nl (s @ d)))
       \<and> currentLine (History_append t d h) = last (split_nl (s @ d))
       \<and> limit (History_append t d h) = limit h"
proof -
  let ?parts = "split_nl (currentLine h @ d)"
  have ne: "?parts \<noteq> []" by (rule split_nl_nonempty)
  have sp: "split_nl (s @ d) = butlast (split_nl s) @ ?parts"
    using split_nl_append [of s d] by (simp add: assms(2))
  have bl: "butlast (split_nl (s @ d)) = butlast (split_nl s) @ butlast ?parts"
    using ne by (simp add: sp butlast_append)
  have la: "last (split_nl (s @ d)) = last ?parts"
    using ne by (simp add: sp)
  have "foldl (push_line (limit h)) (lines h) (butlast ?parts)
          = takeLast (limit h) (lines h @ butlast ?parts)"
    by (rule foldl_push_line) (simp add: assms(1) takeLast_length)
  also have "\<dots> = takeLast (limit h) (butlast (split_nl s) @ butlast ?parts)"
    by (simp add: assms(1) takeLast_takeLast_append)
  finally show ?thesis
    by (simp add: History_append_def Let_def bl la)
qed

lemma append_all_stream:
  "lines h = takeLast (limit h) (butlast (split_nl s)) \<Longrightarrow> currentLine h = last (split_nl s) \<Longrightarrow>
   lines (append_all chunks h) = takeLast (limit h) (butlast (split_nl (s @ concat (map snd chunks))))
     \<and> currentLine (append_all chunks h) = last (split_nl (s @ concat (map snd chunks)))
     \<and> limit (append_all chunks h) = limit h"
proof (induction chunks arbitrary: h s)
  case Nil
  then show ?case by (simp add: append_all_def)
next
  case (Cons c chunks)
  obtain t d where c: "c = (t, d)" by (cases c)
  have step: "lines (History_append t d h) = takeLast (limit h) (butlast (split_nl (s @ d)))
       \<and> currentLine (History_append t d h) = last (split_nl (s @ d))
       \<and> limit (History_append t d h) = limit h"
    using Cons.prems by (rule History_append_stream)
  have "lines (append_all chunks (History_append t d h)) =
          takeLast (limit (History_append t d h)) (butlast (split_nl ((s @ d) @ concat (map snd chunks))))
     \<and> currentLine (append_all chunks (History_append t d h)) = last (split_nl ((s @ d) @ concat (map snd chunks)))
     \<and> limit (append_all chunks (History_append t d h)) = limit (History_append t d h)"
    by (rule Cons.IH) (simp_all add: step)
  then show ?case by (simp add: append_all_def c step)
qed


section \<open>The claims\<close>

text \<open>
  C6. A history of capacity \<open>N\<close> that has been fed any sequence of chunks holds at most \<open>N\<close>
  complete lines, and they are the last \<open>N\<close> complete lines of the text fed to it (the
  oldest are evicted first); the partial line is what follows the last newline. With capacity
  3, after \<open>"1\n2\n3\n4\n5\n"\<close>, \<open>lineCount()\<close> is 3 and \<open>getAll()\<close> is \<open>"3\n4\n5"\<close>.
\<close>

theorem history_fifo_bound:
  "length (lines (append_all chunks (History_new (Some N) tr))) \<le> N
   \<and> lines (append_all chunks (History_new (Some N) tr))
       = takeLast N (butlast (split_nl (concat (map snd chunks))))
   \<and> currentLine (append_all chunks (History_new (Some N) tr))
       = last (split_nl (concat (map snd chunks)))
   \<and> History_lineCount (History_append t digits_1_to_5 (History_new (Some 3) tr)) = 3
   \<and> History_getAll (History_append t digits_1_to_5 (History_new (Some 3) tr))
       = ''3'' @ newline # ''4'' @ newline # ''5''"
proof -
  let ?h0 = "History_new (Some N) tr"
  have a: "lines ?h0 = takeLast (limit ?h0) (butlast (split_nl []))"
    and b: "currentLine ?h0 = last (split_nl [])" and l: "limit ?h0 = N"
    by (simp_all add: History_new_def takeLast_def)
  from append_all_stream [OF a b, of chunks]
  have s: "lines (append_all chunks ?h0) = takeLast N (butlast (split_nl (concat (map snd chunks))))"
    and c: "currentLine (append_all chunks ?h0) = last (split_nl (concat (map snd chunks)))"
    by (simp_all add: l)
  have len: "length (lines (append_all chunks ?h0)) \<le> N"
    by (simp add: s takeLast_length)
  have e1: "History_lineCount (History_append t digits_1_to_5 (History_new (Some 3) tr)) = 3"
    by code_simp
  have e2: "History_getAll (History_append t digits_1_to_5 (History_new (Some 3) tr))
       = ''3'' @ newline # ''4'' @ newline # ''5''"
    by code_simp
  from len s c e1 e2 show ?thesis by simp
qed

theorem history_fifo_bound_witness:
  "lines (append_all [(0, ''a'' @ newline # ''b''), (1, ''c'' @ newline # ''d'' @ newline # ''e'')] (History_new (Some 1) None))
       = [''d'']"
proof -
  have "lines (append_all [(0, ''a'' @ newline # ''b''), (1, ''c'' @ newline # ''d'' @ newline # ''e'')] (History_new (Some 1) None))
      = takeLast 1 (butlast (split_nl (concat (map snd [(0::nat, ''a'' @ newline # ''b''), (1, ''c'' @ newline # ''d'' @ newline # ''e'')]))))"
    using history_fifo_bound [where chunks = "[(0, ''a'' @ newline # ''b''), (1, ''c'' @ newline # ''d'' @ newline # ''e'')]"
      and N = 1 and tr = None and t = 0] by blast
  also have "\<dots> = [''d'']"
    by code_simp
  finally show ?thesis .
qed

section \<open>Facts about sessions\<close>

lemma spawn_grid:
  "ptyCols (ptyProcess (fst (spawn env ext command options u)))
     = (case opt_cols options of None \<Rightarrow> 80 | Some n \<Rightarrow> n)
   \<and> ptyRows (ptyProcess (fst (spawn env ext command options u)))
     = (case opt_rows options of None \<Rightarrow> 43 | Some n \<Rightarrow> n)
   \<and> engineCols (terminalEngine (fst (spawn env ext command options u)))
     = (case opt_cols options of None \<Rightarrow> 80 | Some n \<Rightarrow> n)
   \<and> engineRows (terminalEngine (fst (spawn env ext command options u)))
     = (case opt_rows options of None \<Rightarrow> 43 | Some n \<Rightarrow> n)"
  by (simp add: spawn_def SessionImpl_new_def Let_def)

lemma spawn_program:
  "ptyFile (ptyProcess (fst (spawn env ext command options u))) = hd (split_ws (program env command))
   \<and> ptyArgs (ptyProcess (fst (spawn env ext command options u))) = tl (split_ws (program env command))"
  by (simp add: spawn_def SessionImpl_new_def Let_def)

lemma reply_fields:
  "history (reply l now s pn) = history s
   \<and> inputHistory (reply l now s pn) = inputHistory s
   \<and> isAlive (reply l now s pn) = isAlive s
   \<and> exitCode (reply l now s pn) = exitCode s
   \<and> emitted (reply l now s pn) = emitted s
   \<and> observed (reply l now s pn) = observed s
   \<and> eventHandlers (reply l now s pn) = eventHandlers s
   \<and> terminalEngine (reply l now s pn) = terminalEngine s
   \<and> ptyWritten (ptyProcess (reply l now s pn)) = ptyWritten (ptyProcess s) @ [fst pn]"
  by (simp add: reply_def writeRaw_def writeJsonlLog_def)

lemma foldl_reply_fields:
  "history (foldl (reply l now) s rs) = history s
   \<and> inputHistory (foldl (reply l now) s rs) = inputHistory s
   \<and> isAlive (foldl (reply l now) s rs) = isAlive s
   \<and> exitCode (foldl (reply l now) s rs) = exitCode s
   \<and> emitted (foldl (reply l now) s rs) = emitted s
   \<and> observed (foldl (reply l now) s rs) = observed s
   \<and> eventHandlers (foldl (reply l now) s rs) = eventHandlers s
   \<and> terminalEngine (foldl (reply l now) s rs) = terminalEngine s
   \<and> ptyWritten (ptyProcess (foldl (reply l now) s rs)) = ptyWritten (ptyProcess s) @ map fst rs"
proof (induction rs arbitrary: s)
  case Nil
  show ?case by simp
next
  case (Cons r rs)
  show ?case using Cons.IH [of "reply l now s r"] reply_fields [of l now s r] by simp
qed

lemma respond_fields:
  "history (respondToTerminalQueries env now d s) = history s
   \<and> inputHistory (respondToTerminalQueries env now d s) = inputHistory s
   \<and> isAlive (respondToTerminalQueries env now d s) = isAlive s
   \<and> exitCode (respondToTerminalQueries env now d s) = exitCode s
   \<and> emitted (respondToTerminalQueries env now d s) = emitted s
   \<and> observed (respondToTerminalQueries env now d s) = observed s
   \<and> eventHandlers (respondToTerminalQueries env now d s) = eventHandlers s
   \<and> terminalEngine (respondToTerminalQueries env now d s) = terminalEngine s
   \<and> ptyWritten (ptyProcess (respondToTerminalQueries env now d s))
       = ptyWritten (ptyProcess s) @ map fst (queryReplies (rows s) (cols s) (queryScanTail s @ d))"
  using foldl_reply_fields [of "logTerminalQueries env" now
      "s\<lparr> queryScanTail := js_slice (- 64) None (queryScanTail s @ d) \<rparr>"
      "queryReplies (rows s) (cols s) (queryScanTail s @ d)"]
  by (simp add: respondToTerminalQueries_def Let_def)

lemma emitEvent_fields:
  "history (emitEvent ev s) = history s
   \<and> inputHistory (emitEvent ev s) = inputHistory s
   \<and> isAlive (emitEvent ev s) = isAlive s
   \<and> exitCode (emitEvent ev s) = exitCode s
   \<and> eventHandlers (emitEvent ev s) = eventHandlers s
   \<and> terminalEngine (emitEvent ev s) = terminalEngine s
   \<and> ptyProcess (emitEvent ev s) = ptyProcess s
   \<and> emitted (emitEvent ev s) = emitted s @ [ev]"
  by (simp add: emitEvent_def)

lemma engineWrite_fields:
  "history (engineWrite now d s) = history s
   \<and> inputHistory (engineWrite now d s) = inputHistory s
   \<and> isAlive (engineWrite now d s) = isAlive s
   \<and> exitCode (engineWrite now d s) = exitCode s
   \<and> eventHandlers (engineWrite now d s) = eventHandlers s
   \<and> ptyProcess (engineWrite now d s) = ptyProcess s"
  by (simp add: engineWrite_def emitEvent_def Let_def)

lemma onData_fields:
  "history (onData env now d s) = History_append now d (history s)
   \<and> inputHistory (onData env now d s) = inputHistory s
   \<and> isAlive (onData env now d s) = isAlive s
   \<and> exitCode (onData env now d s) = exitCode s
   \<and> eventHandlers (onData env now d s) = eventHandlers s
   \<and> ptyWritten (ptyProcess (onData env now d s))
       = ptyWritten (ptyProcess s) @ map fst (queryReplies (rows s) (cols s) (queryScanTail s @ d))"
  using respond_fields [of env now d s]
  by (simp add: onData_def Let_def emitEvent_fields engineWrite_fields writeJsonlLog_def)

lemma onData_history:
  "history (onData env now d s) = History_append now d (history s)"
  by (simp add: onData_fields)

lemma new_history:
  "history (SessionImpl_new env ext command options lim ld fac) = History_new lim None"
  by (simp add: SessionImpl_new_def Let_def)

lemma waitFor_pattern_first:
  assumes "pattern c = Some re" and "re (History_getAll (history s)) = Some m"
  shows "resolutions (waitFor c now s screen probe)
           = [\<lparr> reason = R_pattern, match = Some m, resultExitCode = None,
                outputText = History_getAll (history s), waitedMs = 0 \<rparr>]"
  using assms
  by (simp add: waitFor_def checkPattern_def finish_def cleanup_def result_def initialWait_def
      resetIdleTimer_def Let_def)

lemma sErr_getAll: "History_getAll (history sErr) = ''error success''"
proof -
  have "History_getAll (History_append 1 ''error success'' (History_new None None)) = ''error success''"
    by code_simp
  then show ?thesis by (simp add: sErr_def sFresh_def onData_history new_history)
qed

text \<open>
  C7. The reference equations of the key codec: \<open>encodeKey("x")\<close> is \<open>"x"\<close>; Ctrl+\<open>c\<close> and
  Ctrl+Shift+\<open>c\<close> are the byte 0x03; Shift+Tab is \<open>ESC [ Z\<close>; Ctrl+Up is \<open>ESC [ 1 ; 5 A\<close>. For
  every single character, Ctrl+Shift+character encodes as Ctrl+character does.
\<close>

theorem encodeKey_reference:
  "encodeKey (Text ''x'') = Inr ''x''
   \<and> encodeKey (Modified (mk_ctrl (KStr ''c''))) = Inr [CHR 0x03]
   \<and> encodeKey (Modified ((mk_ctrl (KStr ''c''))\<lparr> shift := True \<rparr>)) = Inr [CHR 0x03]
   \<and> encodeKey (Modified (mk_shift (KSym Key_Tab))) = Inr (ESC # ''[Z'')
   \<and> encodeKey (Modified (mk_ctrl (KSym Key_Up))) = Inr (ESC # ''[1;5A'')
   \<and> encodeKey (Modified \<lparr> key = KStr [c], ctrl = True, alt = False, shift = True, meta = False \<rparr>)
       = encodeKey (Modified \<lparr> key = KStr [c], ctrl = True, alt = False, shift = False, meta = False \<rparr>)"
proof -
  have k1: "encodeKey (Text ''x'') = Inr ''x''" by simp
  have k2: "encodeKey (Modified (mk_ctrl (KStr ''c''))) = Inr [CHR 0x03]" by code_simp
  have k3: "encodeKey (Modified ((mk_ctrl (KStr ''c''))\<lparr> shift := True \<rparr>)) = Inr [CHR 0x03]"
    by code_simp
  have k4: "encodeKey (Modified (mk_shift (KSym Key_Tab))) = Inr (ESC # ''[Z'')" by code_simp
  have k5: "encodeKey (Modified (mk_ctrl (KSym Key_Up))) = Inr (ESC # ''[1;5A'')" by code_simp
  have k6: "encodeKey (Modified \<lparr> key = KStr [c], ctrl = True, alt = False, shift = True, meta = False \<rparr>)
       = encodeKey (Modified \<lparr> key = KStr [c], ctrl = True, alt = False, shift = False, meta = False \<rparr>)"
    by (simp add: ctrlLetter_def specialWithModifiers_def Let_def)
  from k1 k2 k3 k4 k5 k6 show ?thesis by blast
qed

theorem encodeKey_reference_witness:
  "encodeKey (Modified \<lparr> key = KStr ''C'', ctrl = True, alt = False, shift = True, meta = False \<rparr>)
     = encodeKey (Modified \<lparr> key = KStr ''C'', ctrl = True, alt = False, shift = False, meta = False \<rparr>)
   \<and> encodeKey (Modified (mk_ctrl (KStr ''c''))) = Inr [CHR 0x03]"
  using encodeKey_reference [of "CHR ''C''"] by blast

text \<open>
  C3, as the code has it. A spawn that overrides neither grid size creates the PTY and the
  terminal engine with 80 columns and 43 rows: the constructor's default for the rows is 43,
  as the comments of \<open>SpawnOptions\<close> say, not 24.
\<close>

theorem spawn_default_grid:
  "opt_cols options = None \<Longrightarrow> opt_rows options = None \<Longrightarrow>
   ptyCols (ptyProcess (fst (spawn env ext command options u))) = 80
   \<and> ptyRows (ptyProcess (fst (spawn env ext command options u))) = 43
   \<and> engineCols (terminalEngine (fst (spawn env ext command options u))) = 80
   \<and> engineRows (terminalEngine (fst (spawn env ext command options u))) = 43"
  by (simp add: spawn_grid)

theorem spawn_default_grid_witness:
  "ptyCols (ptyProcess (fst (spawn env0 ext0 ''bash'' noOptions (Umux_new cfg0 env0)))) = 80
   \<and> ptyRows (ptyProcess (fst (spawn env0 ext0 ''bash'' noOptions (Umux_new cfg0 env0)))) = 43
   \<and> engineCols (terminalEngine (fst (spawn env0 ext0 ''bash'' noOptions (Umux_new cfg0 env0)))) = 80
   \<and> engineRows (terminalEngine (fst (spawn env0 ext0 ''bash'' noOptions (Umux_new cfg0 env0)))) = 43"
  by (rule spawn_default_grid) (simp_all add: noOptions_def)

theorem spawn_default_grid_counterexample:
  "\<not> (ptyCols (ptyProcess (fst (spawn env0 ext0 ''bash'' noOptions (Umux_new cfg0 env0)))) = 80
      \<and> ptyRows (ptyProcess (fst (spawn env0 ext0 ''bash'' noOptions (Umux_new cfg0 env0)))) = 24
      \<and> engineCols (terminalEngine (fst (spawn env0 ext0 ''bash'' noOptions (Umux_new cfg0 env0)))) = 80
      \<and> engineRows (terminalEngine (fst (spawn env0 ext0 ''bash'' noOptions (Umux_new cfg0 env0)))) = 24)"
  by (simp add: spawn_grid noOptions_def)

text \<open>
  C5, evaluated on the code. With the option \<open>defaultShell\<close> configured as \<open>/bin/zsh\<close> and
  \<open>$SHELL\<close> being \<open>/bin/bash\<close>, the configuration records \<open>/bin/zsh\<close>, but a spawn with the
  empty command runs \<open>/bin/bash\<close>: the session's constructor reads \<open>$SHELL\<close> itself and
  \<open>spawn\<close> never passes the configured shell on.
\<close>

theorem spawn_ignores_defaultShell:
  "defaultShell (config (Umux_new cfgZsh env0)) = ''/bin/zsh''
   \<and> ptyFile (ptyProcess (fst (spawn env0 ext0 [] noOptions (Umux_new cfgZsh env0)))) = ''/bin/bash''
   \<and> ptyArgs (ptyProcess (fst (spawn env0 ext0 [] noOptions (Umux_new cfgZsh env0)))) = []"
proof -
  have a: "defaultShell (config (Umux_new cfgZsh env0)) = ''/bin/zsh''"
    by (simp add: Umux_new_def cfgZsh_def cfg0_def Let_def)
  have b: "split_ws (program env0 []) = [''/bin/bash'']"
    by code_simp
  show ?thesis by (simp add: a b spawn_program)
qed

text \<open>
  C1, evaluated on the code. The history holds \<open>error success\<close>, so both the \<open>not\<close> pattern
  \<open>error\<close> and the pattern \<open>success\<close> match it when the wait is issued. The pre-checks of
  \<open>waitFor\<close> test the pattern first and resolve with reason \<open>pattern\<close>; the same text
  arriving as a live chunk is tested against \<open>not\<close> first and resolves with \<open>rejected\<close>.
\<close>

theorem precheck_pattern_before_not:
  "literalRegExp ''error'' (History_getAll (history sErr)) = Some [''error'']
   \<and> literalRegExp ''success'' (History_getAll (history sErr)) = Some [''success'']
   \<and> map reason (resolutions (waitFor cBoth 2 sErr [] False)) = [R_pattern]
   \<and> map reason (resolutions (deliver cBoth (3, W_output ''error success'') (waitFor cBoth 2 sFresh [] False)))
       = [R_rejected]"
proof -
  have e: "literalRegExp ''error'' ''error success'' = Some [''error'']" by code_simp
  have p: "literalRegExp ''success'' ''error success'' = Some [''success'']" by code_simp
  have r: "map reason (resolutions (waitFor cBoth 2 sErr [] False)) = [R_pattern]"
    using waitFor_pattern_first [of cBoth "literalRegExp ''success''" sErr "[''success'']" 2 "[]" False]
    by (simp add: sErr_getAll p cBoth_def noCondition_def)
  have f: "History_getAll (history sFresh) = []"
    by (simp add: sFresh_def new_history History_getAll_def all_lines_def History_new_def)
  have n0: "literalRegExp ''error'' [] = None" "literalRegExp ''success'' [] = None"
    by (simp_all add: literalRegExp_def)
  have al: "isAlive sFresh"
    by (simp add: sFresh_def SessionImpl_new_def Let_def)
  have w0: "waitFor cBoth 2 sFresh [] False =
      (initialWait 2)\<lparr> timeoutTimer := Some 5000, onOutputSubscribed := True, onExitSubscribed := True,
        onScreenSubscribed := True \<rparr>"
    by (simp add: waitFor_def checkPattern_def checkNot_def checkScreen_def checkReady_def
        checkExited_def cBoth_def noCondition_def f n0 al truthy_def resetIdleTimer_def
        initialWait_def Let_def)
  have sl: "js_slice (- scanTailLimit) None ''error success'' = ''error success''"
    by (simp add: js_slice_def rel_index_def scanTailLimit_def)
  have l: "map reason (resolutions (deliver cBoth (3, W_output ''error success'')
              (waitFor cBoth 2 sFresh [] False))) = [R_rejected]"
    unfolding w0
    by (simp add: initialWait_def onOutput_def sl e cBoth_def noCondition_def finish_def
        cleanup_def result_def Let_def)
  show ?thesis unfolding sErr_getAll using e p r l by blast
qed


lemma onExit_fields:
  "history (onExit now code s) = history s
   \<and> inputHistory (onExit now code s) = inputHistory s
   \<and> isAlive (onExit now code s) = False
   \<and> exitCode (onExit now code s) = Some code
   \<and> eventHandlers (onExit now code s) = eventHandlers s
   \<and> ptyProcess (onExit now code s) = ptyProcess s
   \<and> emitted (onExit now code s) = emitted s @ [Ev_exit code]
   \<and> observed (onExit now code s) = observed s @
         map (\<lambda>h. \<lparr> handler = h, event = Ev_exit code, seenAlive = False, seenExitCode = Some code \<rparr>)
             (eventHandlers s E_exit)"
  by (simp add: onExit_def emitEvent_def writeJsonlLog_def closeJsonlLogStream_def Let_def)

lemma send_fields:
  "history (after (send now d s)) = history s
   \<and> emitted (after (send now d s)) = emitted s
   \<and> observed (after (send now d s)) = observed s"
  by (simp add: send_def after_def writeRaw_def writeJsonlLog_def Let_def)

lemma sendKey_fields:
  "history (after (sendKey now k s)) = history s
   \<and> emitted (after (sendKey now k s)) = emitted s
   \<and> observed (after (sendKey now k s)) = observed s"
  by (simp add: sendKey_def after_def writeRaw_def writeJsonlLog_def Let_def split: sum.split)

lemma sendKeys_fields:
  "history (after (sendKeys now ks s)) = history s
   \<and> emitted (after (sendKeys now ks s)) = emitted s
   \<and> observed (after (sendKeys now ks s)) = observed s"
  by (simp add: sendKeys_def after_def writeRaw_def writeJsonlLog_def Let_def split: sum.split)

lemma misc_fields:
  "history (kill sg s) = history s \<and> emitted (kill sg s) = emitted s \<and> observed (kill sg s) = observed s
   \<and> history (after (resize c r s)) = history s \<and> emitted (after (resize c r s)) = emitted s
   \<and> observed (after (resize c r s)) = observed s
   \<and> history (on e h s) = history s \<and> emitted (on e h s) = emitted s \<and> observed (on e h s) = observed s
   \<and> history (off e h s) = history s \<and> emitted (off e h s) = emitted s \<and> observed (off e h s) = observed s
   \<and> history (dispose s) = history s \<and> emitted (dispose s) = emitted s \<and> observed (dispose s) = observed s"
  by (simp add: kill_def resize_def after_def on_def off_def dispose_def closeJsonlLogStream_def
      Let_def)

lemma emitEvent_observed:
  assumes "list_all exitSeenDead (observed s)"
      and "case ev of Ev_exit code \<Rightarrow> \<not> isAlive s \<and> exitCode s = Some code | _ \<Rightarrow> True"
  shows "list_all exitSeenDead (observed (emitEvent ev s))"
  using assms by (cases ev) (auto simp: emitEvent_def list_all_iff)

lemma onData_observed:
  assumes "list_all exitSeenDead (observed s)"
  shows "list_all exitSeenDead (observed (onData env now d s))"
proof -
  let ?s1 = "respondToTerminalQueries env now d s"
  let ?s2 = "writeJsonlLog (LogOutput now d) ?s1"
  let ?s3 = "?s2\<lparr> history := History_append now d (history ?s2) \<rparr>"
  have o3: "list_all exitSeenDead (observed ?s3)"
    using assms respond_fields [of env now d s] by (simp add: writeJsonlLog_def)
  have o4: "list_all exitSeenDead (observed (engineWrite now d ?s3))"
  proof (cases "syncFlush (terminalEngine ?s3)")
    case True
    have "list_all exitSeenDead (observed (emitEvent (Ev_screen now)
            (?s3\<lparr> terminalEngine := (terminalEngine ?s3)
                 \<lparr> engineWritten := engineWritten (terminalEngine ?s3) @ [d] \<rparr> \<rparr>)))"
      by (rule emitEvent_observed) (use o3 in simp_all)
    with True show ?thesis by (simp only: engineWrite_def Let_def if_True)
  next
    case False
    with o3 show ?thesis by (simp add: engineWrite_def Let_def)
  qed
  have "list_all exitSeenDead (observed (emitEvent (Ev_output d now) (engineWrite now d ?s3)))"
    by (rule emitEvent_observed) (use o4 in simp_all)
  then show ?thesis by (simp only: onData_def Let_def)
qed

lemma onData_emitted:
  "filter isExitEvent (emitted (onData env now d s)) = filter isExitEvent (emitted s)"
  using respond_fields [of env now d s]
  by (simp add: onData_def Let_def emitEvent_def engineWrite_def writeJsonlLog_def)

lemma step_observed:
  assumes "list_all exitSeenDead (observed s)"
  shows "list_all exitSeenDead (observed (after (step env i s)))"
proof (cases i)
  case (PtyData now d)
  with assms show ?thesis by (simp add: after_def onData_observed)
next
  case (PtyExit now code)
  with assms show ?thesis by (auto simp: after_def onExit_fields list_all_iff)
next
  case (EngineFlushed now)
  have "list_all exitSeenDead (observed (emitEvent (Ev_screen now) s))"
    by (rule emitEvent_observed) (use assms in simp_all)
  with EngineFlushed show ?thesis by (simp add: after_def)
next
  case (Send now d)
  with assms show ?thesis by (simp add: send_fields)
next
  case (SendKey now k)
  with assms show ?thesis by (simp add: sendKey_fields)
next
  case (SendKeys now ks)
  with assms show ?thesis by (simp add: sendKeys_fields)
next
  case (Resize c r)
  with assms show ?thesis by (simp add: misc_fields)
qed (use assms in \<open>simp_all add: after_def misc_fields\<close>)

lemma step_exit_events:
  "filter isExitEvent (emitted (after (step env i s)))
     = filter isExitEvent (emitted s) @ (case i of PtyExit now code \<Rightarrow> [Ev_exit code] | _ \<Rightarrow> [])"
proof (cases i)
  case (PtyData now d)
  then show ?thesis by (simp add: after_def onData_emitted)
next
  case (PtyExit now code)
  then show ?thesis by (simp add: after_def onExit_fields)
next
  case (EngineFlushed now)
  then show ?thesis by (simp add: after_def emitEvent_def)
qed (simp_all add: send_fields sendKey_fields sendKeys_fields misc_fields, simp_all add: after_def misc_fields)

lemma step_history:
  "history (after (step env i s))
     = (case i of PtyData now d \<Rightarrow> History_append now d (history s) | _ \<Rightarrow> history s)"
proof (cases i)
  case (PtyData now d)
  then show ?thesis by (simp add: after_def onData_fields)
next
  case (PtyExit now code)
  then show ?thesis by (simp add: after_def onExit_fields)
next
  case (EngineFlushed now)
  then show ?thesis by (simp add: after_def emitEvent_def)
qed (simp_all add: send_fields sendKey_fields sendKeys_fields misc_fields, simp_all add: after_def misc_fields)

lemma run_Cons: "run env (i # ins) s = run env ins (after (step env i s))"
  by (simp add: run_def)

lemma run_Nil: "run env [] s = s"
  by (simp add: run_def)

lemma run_observed:
  "list_all exitSeenDead (observed s) \<Longrightarrow> list_all exitSeenDead (observed (run env ins s))"
proof (induction ins arbitrary: s)
  case Nil
  then show ?case by (simp add: run_Nil)
next
  case (Cons i ins)
  show ?case unfolding run_Cons
    by (rule Cons.IH) (rule step_observed [OF Cons.prems])
qed

lemma run_exit_count:
  "length (filter isExitEvent (emitted (run env ins s)))
     = length (filter isExitEvent (emitted s)) + length (filter isPtyExit ins)"
proof (induction ins arbitrary: s)
  case Nil
  show ?case by (simp add: run_Nil)
next
  case (Cons i ins)
  have "length (filter isExitEvent (emitted (after (step env i s))))
          = length (filter isExitEvent (emitted s)) + (if isPtyExit i then 1 else 0)"
    using step_exit_events [of env i s] by (cases i) simp_all
  then show ?case unfolding run_Cons by (simp add: Cons.IH)
qed

lemma run_history:
  "history (run env ins s) = append_all (childChunks ins) (history s)"
proof (induction ins arbitrary: s)
  case Nil
  show ?case by (simp add: run_Nil append_all_def)
next
  case (Cons i ins)
  show ?case unfolding run_Cons Cons.IH
    using step_history [of env i s] by (cases i) (simp_all add: append_all_def)
qed

lemma new_fields:
  "emitted (SessionImpl_new env ext command options lim ld fac) = []
   \<and> observed (SessionImpl_new env ext command options lim ld fac) = []
   \<and> isAlive (SessionImpl_new env ext command options lim ld fac)
   \<and> inputHistory (SessionImpl_new env ext command options lim ld fac) = History_new lim (Some False)
   \<and> ptyWritten (ptyProcess (SessionImpl_new env ext command options lim ld fac)) = []
   \<and> logInput (SessionImpl_new env ext command options lim ld fac) = shouldLogInput env
   \<and> cols (SessionImpl_new env ext command options lim ld fac)
        = (case opt_cols options of None \<Rightarrow> 80 | Some n \<Rightarrow> n)
   \<and> rows (SessionImpl_new env ext command options lim ld fac)
        = (case opt_rows options of None \<Rightarrow> 43 | Some n \<Rightarrow> n)
   \<and> queryScanTail (SessionImpl_new env ext command options lim ld fac) = []"
  by (simp add: SessionImpl_new_def Let_def)

lemma sendKey_inputHistory:
  "inputHistory (after (sendKey now k s))
     = (if isAlive s \<and> logInput s
        then History_append now (formatKeyInputForLog k) (inputHistory s) else inputHistory s)"
  by (simp add: sendKey_def after_def writeRaw_def writeJsonlLog_def Let_def split: sum.split)

text \<open>
  C8. A fresh session that is fed any sequence of PTY callbacks and method calls emits as many
  \<open>exit\<close> events as the PTY reported exits, so at most one when the child exits at most once;
  and every handler that is handed an \<open>exit\<close> event sees \<open>isAlive\<close> false and \<open>exitCode\<close>
  set to the event's code.
\<close>

theorem exit_event_once:
  "length (filter isPtyExit ins) \<le> 1 \<Longrightarrow>
   length (filter isExitEvent
     (emitted (run env ins (SessionImpl_new env' ext command options lim ld fac)))) \<le> 1
   \<and> length (filter isExitEvent
        (emitted (run env ins (SessionImpl_new env' ext command options lim ld fac))))
       = length (filter isPtyExit ins)
   \<and> list_all exitSeenDead
        (observed (run env ins (SessionImpl_new env' ext command options lim ld fac)))"
  by (simp add: run_exit_count run_observed new_fields)

theorem exit_event_once_witness:
  "length (filter isExitEvent
     (emitted (run env0 [On E_exit 7, PtyData 1 ''done'', PtyExit 2 0, Kill None] sFresh))) = 1
   \<and> list_all exitSeenDead
        (observed (run env0 [On E_exit 7, PtyData 1 ''done'', PtyExit 2 0, Kill None] sFresh))
   \<and> observed (run env0 [On E_exit 7, PtyExit 2 0] sFresh)
       = [\<lparr> handler = 7, event = Ev_exit 0, seenAlive = False, seenExitCode = Some 0 \<rparr>]"
proof -
  have h: "eventHandlers (on E_exit 7 sFresh) E_exit = [7]" "observed (on E_exit 7 sFresh) = []"
    by (simp_all add: on_def sFresh_def SessionImpl_new_def Let_def)
  have o: "observed (run env0 [On E_exit 7, PtyExit 2 0] sFresh)
       = [\<lparr> handler = 7, event = Ev_exit 0, seenAlive = False, seenExitCode = Some 0 \<rparr>]"
    by (simp add: run_def after_def onExit_fields h)
  show ?thesis
    using exit_event_once [of "[On E_exit 7, PtyData 1 ''done'', PtyExit 2 0, Kill None]"
        env0 env0 ext0 "[]" noOptions None "[]" None] o
    by (simp add: sFresh_def)
qed

text \<open>
  C9. Whatever happens to a session, its output history is the result of appending exactly the
  chunks the child wrote, in order: from a fresh session with capacity \<open>N\<close>, the lines are the
  last \<open>N\<close> complete lines of the child's text and the partial line is its unfinished end.
  Handling a chunk appends that chunk alone to the output history, leaves the input history as
  it is, and writes every reply of the terminal-query responder to the PTY input.
\<close>

theorem output_history_child_bytes_only:
  "history (run env ins s) = append_all (childChunks ins) (history s)
   \<and> lines (history (run env ins (SessionImpl_new env' ext command options (Some N) ld fac)))
       = takeLast N (butlast (split_nl (concat (map snd (childChunks ins)))))
   \<and> currentLine (history (run env ins (SessionImpl_new env' ext command options (Some N) ld fac)))
       = last (split_nl (concat (map snd (childChunks ins))))
   \<and> history (onData env now d s) = History_append now d (history s)
   \<and> inputHistory (onData env now d s) = inputHistory s
   \<and> ptyWritten (ptyProcess (onData env now d s))
       = ptyWritten (ptyProcess s) @ map fst (queryReplies (rows s) (cols s) (queryScanTail s @ d))"
proof -
  let ?h0 = "History_new (Some N) None"
  have a: "lines ?h0 = takeLast (limit ?h0) (butlast (split_nl []))"
    and b: "currentLine ?h0 = last (split_nl [])" and l: "limit ?h0 = N"
    by (simp_all add: History_new_def takeLast_def)
  from append_all_stream [OF a b, of "childChunks ins"]
  have "lines (append_all (childChunks ins) ?h0)
          = takeLast N (butlast (split_nl (concat (map snd (childChunks ins)))))"
    and "currentLine (append_all (childChunks ins) ?h0)
          = last (split_nl (concat (map snd (childChunks ins))))"
    by (simp_all add: l)
  then show ?thesis
    by (simp add: run_history new_history onData_fields)
qed

theorem output_history_child_bytes_only_witness:
  "ptyWritten (ptyProcess (onData env0 1 (ESC # ''[6n'') sFresh)) = [ESC # ''[1;1R'']
   \<and> history (onData env0 1 (ESC # ''[6n'') sFresh)
       = History_append 1 (ESC # ''[6n'') (History_new None None)
   \<and> inputHistory (onData env0 1 (ESC # ''[6n'') sFresh) = inputHistory sFresh"
proof -
  have q: "queryReplies 43 80 (ESC # ''[6n'') = [(ESC # ''[1;1R'', ''CPR'')]"
    by code_simp
  have f: "rows sFresh = 43" "cols sFresh = 80" "queryScanTail sFresh = []"
    "ptyWritten (ptyProcess sFresh) = []" "history sFresh = History_new None None"
    by (simp_all add: sFresh_def new_fields new_history noOptions_def)
  show ?thesis
    using output_history_child_bytes_only [of env0 "[]" sFresh env0 ext0 "[]" noOptions 0 "[]" None 1 "ESC # ''[6n''"]
    by (simp add: f q)
qed

lemma KEY_MAP_None:
  "(KEY_MAP k = None) = (k \<in> {Key_Ctrl, Key_Alt, Key_Shift, Key_Meta})"
  by (cases k) simp_all

lemma ARROW_BASE_KEY_MAP: "KEY_MAP k = None \<Longrightarrow> ARROW_BASE k = None"
  by (cases k) simp_all

lemma encodeKey_fails_iff:
  "(\<exists>e. encodeKey k = Inl e) =
     (\<exists>sym. sym \<in> {Key_Ctrl, Key_Alt, Key_Shift, Key_Meta}
        \<and> (k = Special sym \<or> (\<exists>m. k = Modified m \<and> key m = KSym sym)))"
proof (cases k)
  case (Text t)
  then show ?thesis by simp
next
  case (Special sym)
  then show ?thesis using KEY_MAP_None [of sym] by (auto split: option.splits)
next
  case (Modified m)
  show ?thesis
  proof (cases "key m")
    case (KStr t)
    with Modified show ?thesis
      by (auto simp: ctrlLetter_def specialWithModifiers_def Let_def split: option.splits list.splits)
  next
    case (KSym sym)
    have c: "ctrlLetter m = None" using KSym by (simp add: ctrlLetter_def)
    show ?thesis
    proof (cases "KEY_MAP sym")
      case None
      then have t: "sym \<noteq> Key_Tab" by auto
      from None have "specialWithModifiers m = None"
        using KSym t ARROW_BASE_KEY_MAP [OF None]
        by (simp add: specialWithModifiers_def Let_def)
      with c KSym Modified None KEY_MAP_None [of sym] show ?thesis by auto
    next
      case (Some enc)
      then have "specialWithModifiers m \<noteq> None"
        using KSym by (auto simp: specialWithModifiers_def Let_def split: option.splits)
      with c KSym Modified Some KEY_MAP_None [of sym] show ?thesis by auto
    qed
  qed
qed

lemma sendKey_encoded:
  "encodeKey k = Inr bytes \<Longrightarrow> isAlive s \<Longrightarrow>
   (\<exists>s'. sendKey now k s = Inr s'
      \<and> ptyWritten (ptyProcess s') = ptyWritten (ptyProcess s) @ [bytes])"
  by (simp add: sendKey_def writeRaw_def writeJsonlLog_def Let_def)

text \<open>
  C4, as the code has it. The key inputs that \<open>encodeKey\<close> rejects are exactly those whose key
  is one of the symbols \<open>Key.Ctrl\<close>, \<open>Key.Alt\<close>, \<open>Key.Shift\<close> and \<open>Key.Meta\<close>, alone or with
  modifier flags. Sending one of them fails: with the encoder's error on a live session, with
  the not-alive error otherwise. Nothing is written to the PTY; the output history, the
  liveness, the exit code and the events are unchanged; and when input logging is off (or the
  session is dead) the whole session is unchanged. Every other key input is encoded, if need be
  by the fallback that returns the bare key, and sent to a live session it is written to the
  PTY. The counterexample shows the two ways the claim fails: with input logging on,
  \<open>Key.Ctrl\<close> is in the input history when the encoder throws, and Ctrl+Alt+\<open>c\<close>, which no
  rule of the codec names, does not fail but writes \<open>c\<close>.
\<close>

theorem sendKey_invalid:
  "((\<exists>e. encodeKey k = Inl e) =
      (\<exists>sym. sym \<in> {Key_Ctrl, Key_Alt, Key_Shift, Key_Meta}
         \<and> (k = Special sym \<or> (\<exists>m. k = Modified m \<and> key m = KSym sym))))
   \<and> (encodeKey k = Inl e \<longrightarrow>
        (\<exists>e' s'. sendKey now k s = Inl (e', s')
           \<and> e' = (if isAlive s then e else SessionNotAlive (id s))
           \<and> ptyProcess s' = ptyProcess s \<and> history s' = history s
           \<and> isAlive s' = isAlive s \<and> exitCode s' = exitCode s \<and> emitted s' = emitted s
           \<and> (if logInput s \<and> isAlive s then True else s' = s)))
   \<and> (encodeKey k = Inr bytes \<and> isAlive s \<longrightarrow>
        (\<exists>s'. sendKey now k s = Inr s'
           \<and> ptyWritten (ptyProcess s') = ptyWritten (ptyProcess s) @ [bytes]))"
proof -
  have a: "encodeKey k = Inl e \<longrightarrow>
        (\<exists>e' s'. sendKey now k s = Inl (e', s')
           \<and> e' = (if isAlive s then e else SessionNotAlive (id s))
           \<and> ptyProcess s' = ptyProcess s \<and> history s' = history s
           \<and> isAlive s' = isAlive s \<and> exitCode s' = exitCode s \<and> emitted s' = emitted s
           \<and> (if logInput s \<and> isAlive s then True else s' = s))"
    by (simp add: sendKey_def writeJsonlLog_def Let_def)
  from a encodeKey_fails_iff [of k] sendKey_encoded [of k bytes s now]
  show ?thesis by blast
qed

theorem sendKey_invalid_witness:
  "sendKey 5 (Special Key_Ctrl) (sFresh\<lparr> logInput := False \<rparr>)
     = Inl (UnknownKey Key_Ctrl, sFresh\<lparr> logInput := False \<rparr>)
   \<and> (\<exists>e. encodeKey (Special Key_Ctrl) = Inl e)
   \<and> (\<exists>s'. sendKey 5 ctrlAltC sFresh = Inr s' \<and> ptyWritten (ptyProcess s') = [''c''])"
proof -
  have e: "encodeKey (Special Key_Ctrl) = Inl (UnknownKey Key_Ctrl)" by simp
  have a: "isAlive (sFresh\<lparr> logInput := False \<rparr>)" "isAlive sFresh"
    "ptyWritten (ptyProcess sFresh) = []"
    by (simp_all add: sFresh_def new_fields)
  have c: "encodeKey ctrlAltC = Inr ''c''" by code_simp
  from sendKey_invalid [of "Special Key_Ctrl" "UnknownKey Key_Ctrl" 5 "sFresh\<lparr> logInput := False \<rparr>" "[]"] e a(1)
  have 1: "sendKey 5 (Special Key_Ctrl) (sFresh\<lparr> logInput := False \<rparr>)
     = Inl (UnknownKey Key_Ctrl, sFresh\<lparr> logInput := False \<rparr>)"
    and 2: "\<exists>e. encodeKey (Special Key_Ctrl) = Inl e" by auto
  from sendKey_invalid [of ctrlAltC "UnknownKey Key_Ctrl" 5 sFresh "''c''"] c a(2,3)
  have 3: "\<exists>s'. sendKey 5 ctrlAltC sFresh = Inr s' \<and> ptyWritten (ptyProcess s') = [''c'']"
    by auto
  from 1 2 3 show ?thesis by blast
qed

theorem sendKey_invalid_counterexample:
  "encodeKey (Special Key_Ctrl) = Inl (UnknownKey Key_Ctrl)
   \<and> isAlive sFresh
   \<and> currentLine (inputHistory sFresh) = []
   \<and> currentLine (inputHistory (after (sendKey 5 (Special Key_Ctrl) sFresh))) = ''<Ctrl>''
   \<and> inputHistory (after (sendKey 5 (Special Key_Ctrl) sFresh)) \<noteq> inputHistory sFresh
   \<and> encodeKey ctrlAltC = Inr ''c''
   \<and> ptyWritten (ptyProcess (after (sendKey 5 ctrlAltC sFresh))) = [''c'']"
proof -
  have a: "isAlive sFresh" "logInput sFresh" "inputHistory sFresh = History_new None (Some False)"
    "ptyWritten (ptyProcess sFresh) = []"
    by (simp_all add: sFresh_def new_fields shouldLogInput_def env0_def)
  have c0: "currentLine (History_new None (Some False)) = []"
    by (simp add: History_new_def)
  have c1: "currentLine (History_append 5 (formatKeyInputForLog (Special Key_Ctrl))
              (History_new None (Some False))) = ''<Ctrl>''"
    by code_simp
  have i: "inputHistory (after (sendKey 5 (Special Key_Ctrl) sFresh))
        = History_append 5 (formatKeyInputForLog (Special Key_Ctrl)) (History_new None (Some False))"
    by (simp only: sendKey_inputHistory a simp_thms if_True)
  have ne: "inputHistory (after (sendKey 5 (Special Key_Ctrl) sFresh)) \<noteq> inputHistory sFresh"
  proof
    assume "inputHistory (after (sendKey 5 (Special Key_Ctrl) sFresh)) = inputHistory sFresh"
    then have "currentLine (inputHistory (after (sendKey 5 (Special Key_Ctrl) sFresh)))
                 = currentLine (inputHistory sFresh)" by simp
    then show False unfolding i a(3) c0 c1 by simp
  qed
  have k: "encodeKey ctrlAltC = Inr ''c''" by code_simp
  from sendKey_encoded [OF k a(1), of 5] a(4)
  have w: "ptyWritten (ptyProcess (after (sendKey 5 ctrlAltC sFresh))) = [''c'']"
    by (auto simp: after_def)
  have m: "encodeKey (Special Key_Ctrl) = Inl (UnknownKey Key_Ctrl)
   \<and> isAlive sFresh
   \<and> currentLine (inputHistory sFresh) = []
   \<and> currentLine (inputHistory (after (sendKey 5 (Special Key_Ctrl) sFresh))) = ''<Ctrl>''"
    using a(1) c0 c1 unfolding i a(3) by simp
  from m ne k w show ?thesis by blast
qed


section \<open>Facts about waits\<close>

lemma finish_settles:
  "\<not> resolved w \<Longrightarrow> resolutions w = [] \<Longrightarrow> settled (finish now r w)"
  by (simp add: finish_def cleanup_def settled_def)

lemma finish_pending: "pending c w \<Longrightarrow> settled (finish now r w)"
  by (simp add: pending_def finish_settles)

lemma deliver_settled: "settled w \<Longrightarrow> deliver c e w = w"
  by (cases e; cases "snd e") (auto simp: settled_def)

lemma onOutput_inv: "pending c w \<Longrightarrow> settled (onOutput c now d w) \<or> pending c (onOutput c now d w)"
  by (auto simp: onOutput_def Let_def resetIdleTimer_def pending_def finish_settles
      split: option.splits)

lemma onExitWait_inv: "pending c w \<Longrightarrow> settled (onExitWait c now code w) \<or> pending c (onExitWait c now code w)"
  by (auto simp: onExitWait_def finish_pending)

lemma onScreen_inv: "pending c w \<Longrightarrow> settled (onScreen c now content w) \<or> pending c (onScreen c now content w)"
  by (auto simp: onScreen_def Let_def pending_def finish_settles split: option.splits)

lemma readyPoll_inv: "pending c w \<Longrightarrow> settled (readyPoll now a p w) \<or> pending c (readyPoll now a p w)"
  by (auto simp: readyPoll_def finish_pending)

lemma deliver_inv:
  assumes "settled w \<or> pending c w"
  shows "settled (deliver c e w) \<or> pending c (deliver c e w)"
proof (cases "settled w")
  case True
  then show ?thesis by (simp add: deliver_settled)
next
  case False
  with assms have p: "pending c w" by simp
  obtain now ev where e: "e = (now, ev)" by (cases e)
  show ?thesis
  proof (cases ev)
    case (W_output d)
    with e p onOutput_inv [OF p, of now d] show ?thesis by auto
  next
    case (W_exit code)
    with e p onExitWait_inv [OF p, of now code] show ?thesis by auto
  next
    case (W_screen content)
    with e p onScreen_inv [OF p, of now content] show ?thesis by auto
  next
    case W_idleFired
    have "settled (finish now (result R_idle None None (outputBuffer w)) (w\<lparr> idleTimer := None \<rparr>))"
      using p by (intro finish_settles) (simp_all add: pending_def)
    with e p W_idleFired show ?thesis by auto
  next
    case W_timeoutFired
    have "settled (finish now (result R_timeout None None (outputBuffer w)) (w\<lparr> timeoutTimer := None \<rparr>))"
      using p by (intro finish_settles) (simp_all add: pending_def)
    with e p W_timeoutFired show ?thesis by auto
  next
    case (W_readyPoll a pr)
    with e p readyPoll_inv [OF p, of now a pr] show ?thesis by auto
  qed
qed

lemma deliverAll_inv:
  "settled w \<or> pending c w \<Longrightarrow> settled (deliverAll c evs w) \<or> pending c (deliverAll c evs w)"
proof (induction evs arbitrary: w)
  case Nil
  then show ?case by (simp add: deliverAll_def)
next
  case (Cons e evs)
  have "settled (deliverAll c evs (deliver c e w)) \<or> pending c (deliverAll c evs (deliver c e w))"
    by (rule Cons.IH) (rule deliver_inv [OF Cons.prems])
  then show ?case by (simp add: deliverAll_def)
qed

lemma deliverAll_settled: "settled w \<Longrightarrow> deliverAll c evs w = w"
  by (induction evs) (simp_all add: deliverAll_def deliver_settled)

lemma checkExited_inv: "pending c w \<Longrightarrow> settled (checkExited c now s w) \<or> pending c (checkExited c now s w)"
  by (auto simp: checkExited_def finish_pending)

lemma checkReady_inv:
  assumes "pending c w"
  shows "settled (checkReady c now s probe w) \<or> pending c (checkReady c now s probe w)"
proof -
  have "pending c (w\<lparr> readyPollTimer := True \<rparr>)" using assms by (simp add: pending_def)
  from checkExited_inv [OF this] checkExited_inv [OF assms] finish_pending [OF assms]
  show ?thesis by (auto simp: checkReady_def)
qed

lemma checkScreen_inv:
  assumes "pending c w"
  shows "settled (checkScreen c now s screen probe w) \<or> pending c (checkScreen c now s screen probe w)"
proof (cases "screenPattern c")
  case None
  with checkReady_inv [OF assms] show ?thesis by (simp add: checkScreen_def)
next
  case (Some regex)
  have p: "pending c (w\<lparr> screenBuffer := screen \<rparr>)" using assms by (simp add: pending_def)
  from Some checkReady_inv [OF p] finish_pending [OF p]
  show ?thesis by (auto simp: checkScreen_def Let_def split: option.splits)
qed

lemma checkNot_inv:
  assumes "pending c w"
  shows "settled (checkNot c now s screen probe w) \<or> pending c (checkNot c now s screen probe w)"
proof (cases "not c")
  case None
  with checkScreen_inv [OF assms] show ?thesis by (simp add: checkNot_def)
next
  case (Some regex)
  have p: "pending c (w\<lparr> outputBuffer := History_getAll (history s) \<rparr>)"
    using assms by (simp add: pending_def)
  from Some checkScreen_inv [OF p] finish_pending [OF p]
  show ?thesis by (auto simp: checkNot_def Let_def split: option.splits)
qed

lemma checkPattern_inv:
  assumes "pending c w"
  shows "settled (checkPattern c now s screen probe w) \<or> pending c (checkPattern c now s screen probe w)"
proof (cases "pattern c")
  case None
  with checkNot_inv [OF assms] show ?thesis by (simp add: checkPattern_def)
next
  case (Some regex)
  have p: "pending c (w\<lparr> outputBuffer := History_getAll (history s) \<rparr>)"
    using assms by (simp add: pending_def)
  from Some checkNot_inv [OF p] finish_pending [OF p]
  show ?thesis by (auto simp: checkPattern_def Let_def split: option.splits)
qed

lemma waitFor_inv:
  "settled (waitFor c now s screen probe) \<or> pending c (waitFor c now s screen probe)"
proof -
  have "pending c (resetIdleTimer c ((initialWait now)
          \<lparr> timeoutTimer := (if truthy (timeout c) then timeout c else None),
            onOutputSubscribed := True, onExitSubscribed := True, onScreenSubscribed := True \<rparr>))"
    by (simp add: pending_def resetIdleTimer_def initialWait_def)
  from checkPattern_inv [OF this] show ?thesis by (simp add: waitFor_def Let_def)
qed

lemma reachable_inv:
  "settled (deliverAll c evs (waitFor c now s screen probe))
   \<or> pending c (deliverAll c evs (waitFor c now s screen probe))"
  by (rule deliverAll_inv) (rule waitFor_inv)

lemma timeout_fires:
  assumes "pending c w" and "truthy (timeout c)"
  shows "settled (deliver c (t, W_timeoutFired) w)
       \<and> map reason (resolutions (deliver c (t, W_timeoutFired) w)) = [R_timeout]"
proof -
  have tt: "timeoutTimer w \<noteq> None"
    using assms by (auto simp: pending_def truthy_def split: option.splits)
  have s: "settled (finish t (result R_timeout None None (outputBuffer w)) (w\<lparr> timeoutTimer := None \<rparr>))"
    using assms(1) by (intro finish_settles) (simp_all add: pending_def)
  have "map reason (resolutions (finish t (result R_timeout None None (outputBuffer w))
          (w\<lparr> timeoutTimer := None \<rparr>))) = [R_timeout]"
    using assms(1) by (simp add: finish_def pending_def result_def cleanup_def)
  with s tt show ?thesis by simp
qed

lemma waitFor_only_timeout:
  "pattern c = None \<Longrightarrow> not c = None \<Longrightarrow> screenPattern c = None \<Longrightarrow> \<not> ready c \<Longrightarrow> \<not> exit c \<Longrightarrow>
   idle c = None \<Longrightarrow>
   waitFor c now s screen probe =
     (initialWait now)\<lparr> timeoutTimer := (if truthy (timeout c) then timeout c else None),
        onOutputSubscribed := True, onExitSubscribed := True, onScreenSubscribed := True \<rparr>"
  by (simp add: waitFor_def checkPattern_def checkNot_def checkScreen_def checkReady_def
      checkExited_def resetIdleTimer_def truthy_def initialWait_def Let_def)

text \<open>
  What holds of every wait: \<open>resolve\<close> is called at most once; once a wait has resolved, its
  timers are cleared and its handlers detached and no later event changes it; and a timeout
  that is not 0 stays pending until the wait resolves, and resolves it when it fires.
\<close>

lemma resolves_at_most_once:
  "length (resolutions (deliverAll c evs (waitFor c now s screen probe))) \<le> 1
   \<and> (resolved (deliverAll c evs (waitFor c now s screen probe)) \<longrightarrow>
        length (resolutions (deliverAll c evs (waitFor c now s screen probe))) = 1
        \<and> deliverAll c evs' (deliverAll c evs (waitFor c now s screen probe))
            = deliverAll c evs (waitFor c now s screen probe)
        \<and> cleanup (deliverAll c evs (waitFor c now s screen probe))
            = deliverAll c evs (waitFor c now s screen probe))
   \<and> (\<not> resolved (deliverAll c evs (waitFor c now s screen probe)) \<longrightarrow>
        resolutions (deliverAll c evs (waitFor c now s screen probe)) = [])
   \<and> (truthy (timeout c) \<longrightarrow>
        (\<not> resolved (deliverAll c evs (waitFor c now s screen probe)) \<longrightarrow>
           timeoutTimer (deliverAll c evs (waitFor c now s screen probe)) = timeout c
           \<and> map reason (resolutions (deliver c (t, W_timeoutFired)
                 (deliverAll c evs (waitFor c now s screen probe)))) = [R_timeout])
        \<and> resolved (deliver c (t, W_timeoutFired) (deliverAll c evs (waitFor c now s screen probe)))
        \<and> length (resolutions (deliver c (t, W_timeoutFired)
             (deliverAll c evs (waitFor c now s screen probe)))) = 1)"
proof -
  let ?W = "deliverAll c evs (waitFor c now s screen probe)"
  have inv: "settled ?W \<or> pending c ?W" by (rule reachable_inv)
  show ?thesis
  proof (cases "settled ?W")
    case True
    have f: "deliverAll c evs' ?W = ?W" by (rule deliverAll_settled [OF True])
    have d: "deliver c (t, W_timeoutFired) ?W = ?W" by (rule deliver_settled [OF True])
    have cl: "cleanup ?W = ?W" using True by (simp add: settled_def cleanup_def)
    from True have "resolved ?W" "length (resolutions ?W) = 1" by (simp_all add: settled_def)
    with f d cl show ?thesis by simp
  next
    case False
    with inv have p: "pending c ?W" by simp
    then have nr: "\<not> resolved ?W" "resolutions ?W = []" by (simp_all add: pending_def)
    show ?thesis
    proof (cases "truthy (timeout c)")
      case True
      from timeout_fires [OF p True, of t]
      have "settled (deliver c (t, W_timeoutFired) ?W)"
        and r: "map reason (resolutions (deliver c (t, W_timeoutFired) ?W)) = [R_timeout]" by simp_all
      then have "resolved (deliver c (t, W_timeoutFired) ?W)"
        "length (resolutions (deliver c (t, W_timeoutFired) ?W)) = 1" by (simp_all add: settled_def)
      moreover have "timeoutTimer ?W = timeout c" using p True by (simp add: pending_def)
      ultimately show ?thesis using nr r by simp
    next
      case False
      with nr show ?thesis by simp
    qed
  qed
qed

lemma deliver_cZero:
  assumes "\<not> resolved w \<and> resolutions w = [] \<and> idleTimer w = None \<and> timeoutTimer w = None
           \<and> \<not> readyPollTimer w"
  shows "\<not> resolved (deliver cZero e w) \<and> resolutions (deliver cZero e w) = []
         \<and> idleTimer (deliver cZero e w) = None \<and> timeoutTimer (deliver cZero e w) = None
         \<and> \<not> readyPollTimer (deliver cZero e w)"
proof -
  obtain now ev where e: "e = (now, ev)" by (cases e)
  show ?thesis
    using assms unfolding e
    by (cases ev)
       (simp_all add: onOutput_def onExitWait_def onScreen_def cZero_def noCondition_def
          resetIdleTimer_def truthy_def Let_def)
qed

lemma deliverAll_cZero:
  "\<not> resolved w \<and> resolutions w = [] \<and> idleTimer w = None \<and> timeoutTimer w = None
     \<and> \<not> readyPollTimer w \<Longrightarrow>
   \<not> resolved (deliverAll cZero evs w) \<and> resolutions (deliverAll cZero evs w) = []
     \<and> timeoutTimer (deliverAll cZero evs w) = None"
proof (induction evs arbitrary: w)
  case Nil
  then show ?case by (simp add: deliverAll_def)
next
  case (Cons e evs)
  from Cons.IH [OF deliver_cZero [OF Cons.prems, of e]]
  show ?case by (simp add: deliverAll_def)
qed

text \<open>
  C2, evaluated on the code. A wait whose request carries the timeout 0 and nothing else: the
  guard \<open>if (condition.timeout)\<close> takes 0 for no timeout, so no timeout timer is ever pending,
  and whatever events the loop delivers, \<open>resolve\<close> is never called. The claim has the wait
  resolve, with reason \<open>timeout\<close>, within about 0 ms and one scheduler tick.
\<close>

theorem timeout_zero_never_fires:
  "timeout cZero = Some 0
   \<and> timeoutTimer (waitFor cZero now s screen probe) = None
   \<and> timeoutTimer (deliverAll cZero evs (waitFor cZero now s screen probe)) = None
   \<and> \<not> resolved (deliverAll cZero evs (waitFor cZero now s screen probe))
   \<and> resolutions (deliverAll cZero evs (waitFor cZero now s screen probe)) = []"
proof -
  have w0: "waitFor cZero now s screen probe =
     (initialWait now)\<lparr> timeoutTimer := None,
        onOutputSubscribed := True, onExitSubscribed := True, onScreenSubscribed := True \<rparr>"
    by (simp add: waitFor_only_timeout cZero_def noCondition_def truthy_def)
  have i: "\<not> resolved (waitFor cZero now s screen probe)
     \<and> resolutions (waitFor cZero now s screen probe) = []
     \<and> idleTimer (waitFor cZero now s screen probe) = None
     \<and> timeoutTimer (waitFor cZero now s screen probe) = None
     \<and> \<not> readyPollTimer (waitFor cZero now s screen probe)"
    unfolding w0 by (simp add: initialWait_def)
  from deliverAll_cZero [OF i, of evs] i show ?thesis by (simp add: cZero_def)
qed


section \<open>Facts about searching\<close>

lemma join_nl_last: "xs \<noteq> [] \<Longrightarrow> \<exists>pre. join_nl xs = pre @ last xs"
proof (induction xs rule: join_nl.induct)
  case 1
  then show ?case by simp
next
  case (2 x)
  show ?case by simp
next
  case (3 x y ys)
  then obtain pre where "join_nl (y # ys) = pre @ last (y # ys)" by auto
  then have "join_nl (x # y # ys) = (x @ newline # pre) @ last (x # y # ys)" by simp
  then show ?case by blast
qed

lemma js_slice_tail:
  assumes "xs \<noteq> []" and "0 \<le> n"
  shows "js_slice (- n) None xs \<noteq> [] \<and> last (js_slice (- n) None xs) = last xs"
proof -
  let ?k = "rel_index (- n) (length xs)"
  have k: "?k < length xs"
  proof (cases "n = 0")
    case True
    with assms show ?thesis by (simp add: rel_index_def)
  next
    case False
    with assms have "0 < n" by simp
    moreover from assms have "0 < int (length xs)" by simp
    ultimately have "nat (max (int (length xs) - n) 0) < length xs"
      by (simp add: max_def) linarith
    with \<open>0 < n\<close> show ?thesis by (simp add: rel_index_def)
  qed
  have "js_slice (- n) None xs = drop ?k xs"
    by (simp add: js_slice_def Let_def)
  with k show ?thesis by simp
qed

lemma split_nl_no_newline: "\<forall>x \<in> set (split_nl s). newline \<notin> set x"
proof (induction s)
  case Nil
  show ?case by simp
next
  case (Cons c cs)
  obtain p ps where S: "split_nl cs = p # ps"
    using split_nl_nonempty [of cs] by (cases "split_nl cs") auto
  with Cons show ?case by auto
qed

lemma split_nl_plain: "newline \<notin> set x \<Longrightarrow> split_nl x = [x]"
  by (induction x) auto

lemma collect_Some:
  "collect rs = Some ms \<Longrightarrow> m \<in> set ms \<Longrightarrow> \<exists>xs. Some xs \<in> set rs \<and> m \<in> set xs"
proof (induction rs arbitrary: ms)
  case Nil
  then show ?case by simp
next
  case (Cons r rs)
  show ?case
  proof (cases r)
    case None
    with Cons.prems show ?thesis by simp
  next
    case (Some xs)
    with Cons.prems obtain ys where ys: "collect rs = Some ys" "ms = xs @ ys"
      by (auto split: option.splits)
    show ?thesis
    proof (cases "m \<in> set xs")
      case True
      with Some show ?thesis by auto
    next
      case False
      with Cons.prems ys have "m \<in> set ys" by simp
      from Cons.IH [OF ys(1) this] show ?thesis by auto
    qed
  qed
qed

lemma matchesFrom_sound:
  assumes "matchesFrom ex ln i acc = Some r"
  shows "\<forall>m \<in> set r. m \<in> set acc \<or> (\<exists>j. ex ln j = Some m)"
proof (rule matchesFrom.raw_induct
    [where P = "\<lambda>ex ln i acc r. \<forall>m \<in> set r. m \<in> set acc \<or> (\<exists>j. ex ln j = Some m)"])
  show "matchesFrom ex ln i acc = Some r" by fact
next
  fix mf :: "(string \<Rightarrow> nat \<Rightarrow> (nat \<times> string) option) \<Rightarrow> string \<Rightarrow> nat
      \<Rightarrow> (nat \<times> string) list \<Rightarrow> (nat \<times> string) list option"
  fix ex :: "string \<Rightarrow> nat \<Rightarrow> (nat \<times> string) option"
  fix ln :: string and lastIndex :: nat and acc r :: "(nat \<times> string) list"
  assume IH: "\<And>ex ln i acc y. mf ex ln i acc = Some y
                \<Longrightarrow> \<forall>m \<in> set y. m \<in> set acc \<or> (\<exists>j. ex ln j = Some m)"
  assume eq: "(case ex ln lastIndex of None \<Rightarrow> Some acc
               | Some (idx, tx) \<Rightarrow> mf ex ln (idx + length tx) (acc @ [(idx, tx)])) = Some r"
  show "\<forall>m \<in> set r. m \<in> set acc \<or> (\<exists>j. ex ln j = Some m)"
  proof (cases "ex ln lastIndex")
    case None
    with eq show ?thesis by simp
  next
    case (Some a)
    obtain idx tx where a: "a = (idx, tx)" by (cases a)
    with Some eq have "mf ex ln (idx + length tx) (acc @ [(idx, tx)]) = Some r" by simp
    from IH [OF this] Some a show ?thesis by auto
  qed
qed

lemma lineMatches_sound:
  "lineMatches re ln = Some r \<Longrightarrow> \<forall>m \<in> set r. \<exists>j. execAt re ln j = Some m"
proof (cases "global re")
  case True
  assume "lineMatches re ln = Some r"
  with True have "matchesFrom (execAt re) ln 0 [] = Some r" by (simp add: lineMatches_def)
  from matchesFrom_sound [OF this] show ?thesis by simp
next
  case False
  assume "lineMatches re ln = Some r"
  with False show ?thesis by (auto simp: lineMatches_def split: option.splits)
qed

lemma searchLine_sound:
  assumes "searchLine re ls i = Some ms" and "m \<in> set ms"
  shows "line m = i \<and> (\<exists>j. execAt re (ls ! i) j = Some (column m, matchText m))"
proof -
  from assms(1) obtain r where r: "lineMatches re (ls ! i) = Some r"
    and ms: "ms = map (\<lambda>(idx, txt).
          \<lparr> line = i, column = idx, matchText = txt,
            contextBefore = (if i > 0 then ls ! (i - 1) else []),
            contextAfter = (if i < length ls - 1 then ls ! (i + 1) else []) \<rparr>) r"
    by (auto simp: searchLine_def)
  from assms(2) ms obtain idx tx where it: "(idx, tx) \<in> set r"
    and m: "line m = i" "column m = idx" "matchText m = tx"
    by auto
  from lineMatches_sound [OF r] it have "\<exists>j. execAt re (ls ! i) j = Some (idx, tx)" by blast
  with m show ?thesis by simp
qed

lemma search_sound:
  assumes "History_search re h = Some ms" and "m \<in> set ms"
  shows "line m < length (lines h)
       \<and> (\<exists>j. execAt re (lines h ! line m) j = Some (column m, matchText m))"
proof -
  from collect_Some [OF assms [unfolded History_search_def]]
  obtain xs where "Some xs \<in> set (map (searchLine re (lines h)) [0..<length (lines h)])"
    and mx: "m \<in> set xs" by blast
  then obtain i where i: "i < length (lines h)" and sl: "searchLine re (lines h) i = Some xs"
    by auto
  from searchLine_sound [OF sl mx] i show ?thesis by auto
qed

lemma append_partial_lines:
  assumes "newline \<notin> set q"
  shows "lines (History_append t q (append_all chunks (History_new lim tr)))
           = lines (append_all chunks (History_new lim tr))"
proof -
  let ?hz = "History_new lim tr"
  let ?hh = "append_all chunks ?hz"
  have a: "lines ?hz = takeLast (limit ?hz) (butlast (split_nl []))"
    and b: "currentLine ?hz = last (split_nl [])"
    by (simp_all add: History_new_def takeLast_def)
  from append_all_stream [OF a b, of chunks]
  have c: "currentLine ?hh = last (split_nl (concat (map snd chunks)))" by simp
  have "newline \<notin> set (currentLine ?hh)"
    unfolding c using split_nl_no_newline [of "concat (map snd chunks)"]
      split_nl_nonempty [of "concat (map snd chunks)"] by simp
  with assms have "split_nl (currentLine ?hh @ q) = [currentLine ?hh @ q]"
    by (intro split_nl_plain) simp
  then show ?thesis by (simp add: History_append_def Let_def)
qed

lemma hFooBar_eval:
  "lines hFooBar = [''foo'']" "currentLine hFooBar = ''bar''"
  "History_getAll hFooBar = ''foo'' @ newline # ''bar''"
  by code_simp+

lemma search_bar: "History_search (literal True ''bar'') hFooBar = Some []"
proof -
  have e: "literalAt ''bar'' ''foo'' 0 = None" by code_simp
  have "matchesFrom (literalAt ''bar'') ''foo'' 0 [] = Some []"
    by (subst matchesFrom.simps) (simp add: e)
  then show ?thesis
    by (simp add: History_search_def hFooBar_eval searchLine_def lineMatches_def literal_def)
qed

text \<open>
  C10. \<open>search\<close> does not read the partial line: its result is the same whatever the partial
  line is, appending text without a newline to a history never changes it, and every match it
  returns lies in a complete line (its line number is below the number of complete lines and
  \<open>exec\<close> found it there). When the partial line is not empty, \<open>lineCount()\<close> counts it and
  \<open>getAll()\<close> and \<open>tail(n)\<close>, for \<open>n\<close> from 0 on, end with it.
\<close>

theorem search_skips_partial_line:
  "History_search re (h\<lparr> currentLine := p \<rparr>) = History_search re h
   \<and> (newline \<notin> set q \<longrightarrow>
        History_search re (History_append t q (append_all chunks (History_new lim tr)))
          = History_search re (append_all chunks (History_new lim tr)))
   \<and> (\<forall>ms m. History_search re h = Some ms \<longrightarrow> m \<in> set ms \<longrightarrow>
        line m < length (lines h)
        \<and> (\<exists>j. execAt re (lines h ! line m) j = Some (column m, matchText m)))
   \<and> (currentLine h \<noteq> [] \<longrightarrow>
        History_lineCount h = length (lines h) + 1
        \<and> (\<exists>pre. History_getAll h = pre @ currentLine h)
        \<and> (0 \<le> n \<longrightarrow> (\<exists>pre. History_tail (Some n) h = pre @ currentLine h)))"
proof -
  have a: "History_search re (h\<lparr> currentLine := p \<rparr>) = History_search re h"
    by (simp add: History_search_def)
  have b: "newline \<notin> set q \<longrightarrow>
        History_search re (History_append t q (append_all chunks (History_new lim tr)))
          = History_search re (append_all chunks (History_new lim tr))"
    by (simp add: History_search_def append_partial_lines)
  have c: "\<forall>ms m. History_search re h = Some ms \<longrightarrow> m \<in> set ms \<longrightarrow>
        line m < length (lines h)
        \<and> (\<exists>j. execAt re (lines h ! line m) j = Some (column m, matchText m))"
    using search_sound by blast
  have d: "currentLine h \<noteq> [] \<longrightarrow>
        History_lineCount h = length (lines h) + 1
        \<and> (\<exists>pre. History_getAll h = pre @ currentLine h)
        \<and> (0 \<le> n \<longrightarrow> (\<exists>pre. History_tail (Some n) h = pre @ currentLine h))"
  proof
    assume ne: "currentLine h \<noteq> []"
    have al: "all_lines h = lines h @ [currentLine h]" using ne by (simp add: all_lines_def)
    have 1: "History_lineCount h = length (lines h) + 1" using ne by (simp add: History_lineCount_def)
    have 2: "\<exists>pre. History_getAll h = pre @ currentLine h"
      using join_nl_last [of "all_lines h"] by (simp add: History_getAll_def al)
    have 3: "0 \<le> n \<longrightarrow> (\<exists>pre. History_tail (Some n) h = pre @ currentLine h)"
    proof
      assume n: "0 \<le> n"
      from js_slice_tail [of "all_lines h" n] n
      have "js_slice (- n) None (all_lines h) \<noteq> []"
        and "last (js_slice (- n) None (all_lines h)) = currentLine h" by (simp_all add: al)
      with join_nl_last [of "js_slice (- n) None (all_lines h)"]
      show "\<exists>pre. History_tail (Some n) h = pre @ currentLine h"
        by (simp add: History_tail_def)
    qed
    from 1 2 3 show "History_lineCount h = length (lines h) + 1
        \<and> (\<exists>pre. History_getAll h = pre @ currentLine h)
        \<and> (0 \<le> n \<longrightarrow> (\<exists>pre. History_tail (Some n) h = pre @ currentLine h))" by blast
  qed
  from a b c d show ?thesis by blast
qed


theorem search_skips_partial_line_witness:
  "History_search (literal True ''bar'') hFooBar = Some []
   \<and> History_getAll hFooBar = ''foo'' @ newline # ''bar''
   \<and> History_lineCount hFooBar = 2
   \<and> History_search (literal True ''bar'') (History_append 1 ''bar'' (History_new (Some 10) None))
       = History_search (literal True ''bar'') (History_new (Some 10) None)"
proof -
  have n: "newline \<notin> set ''bar''" by (simp add: newline_def)
  have c: "currentLine hFooBar \<noteq> []" by (simp add: hFooBar_eval)
  from search_skips_partial_line [where h = hFooBar and q = "''bar''" and chunks = "[]"
      and lim = "Some 10" and tr = None and re = "literal True ''bar''" and t = 1 and n = 0
      and p = "[]"] n c
  have "History_lineCount hFooBar = length (lines hFooBar) + 1"
    and "History_search (literal True ''bar'') (History_append 1 ''bar'' (History_new (Some 10) None))
       = History_search (literal True ''bar'') (History_new (Some 10) None)"
    by (simp_all add: append_all_def)
  then show ?thesis by (simp add: search_bar hFooBar_eval)
qed


end
